theory Spec2Isabelle
  imports Main "HOL-Library.AList"
begin

section \<open>Data model of the relationship graph (graph.ts)\<close>

text \<open>
  A stable identifier is an externally owned object compared by reference; the graph reads
  only its \<open>type\<close>. The \<open>lid\<close> stands for the object's identity.
\<close>

datatype StableRecordIdentifier = Identifier (type: string) (lid: string)

datatype Kind = BelongsTo | HasMany | Implicit

text \<open>The fields of \<open>UpgradedMeta\<close> that graph.ts reads.\<close>

record UpgradedMeta =
  kind :: Kind
  key :: string
  inverseKey :: string
  isAsync :: bool
  isImplicit :: bool
  inverseIsAsync :: bool
  inverseIsImplicit :: bool

text \<open>
  Modelled from the spec: the type \<open>EdgeDefinition\<close> returned by the schema resolution is
  declared in \<open>-edge-definition.ts\<close>, which is not part of the sources at hand. The spec
  gives \<open>{lhs_definition, rhs_definition, ...}\<close>; \<open>getDefinition\<close> reads these two fields
  and asserts with \<open>rhs_definition!\<close> that the right-hand side is present.
\<close>

record EdgeDefinition =
  lhs_definition :: UpgradedMeta
  rhs_definition :: UpgradedMeta

record RelationshipState =
  hasReceivedData :: bool
  isEmpty :: bool
  isStale :: bool
  hasDematerializedInverse :: bool

text \<open>
  The three edge variants. A JavaScript \<open>Set\<close> of identifiers is a duplicate-free list in
  insertion order.
\<close>

datatype GraphEdge =
    ResourceEdge (edge_definition: UpgradedMeta) (edge_identifier: StableRecordIdentifier)
      (state: RelationshipState) (transactionRef: nat)
      (localState: "StableRecordIdentifier option") (remoteState: "StableRecordIdentifier option")
  | CollectionEdge (edge_definition: UpgradedMeta) (edge_identifier: StableRecordIdentifier)
      (state: RelationshipState) (transactionRef: nat)
      (localStates: "StableRecordIdentifier list") (remoteStates: "StableRecordIdentifier list")
      (localMembers: "StableRecordIdentifier list") (remoteMembers: "StableRecordIdentifier list")
  | ImplicitEdge (edge_definition: UpgradedMeta) (edge_identifier: StableRecordIdentifier)
      (localMembers: "StableRecordIdentifier list") (remoteMembers: "StableRecordIdentifier list")

datatype RelationshipPayload =
    SinglePayload "StableRecordIdentifier option"
  | CollectionPayload "StableRecordIdentifier list"

text \<open>The operations that \<open>push\<close> accepts (\<open>RemoteRelationshipOperation\<close>).\<close>

datatype RemoteRelationshipOperation =
    UpdateRelationship StableRecordIdentifier string RelationshipPayload
  | DeleteRecord StableRecordIdentifier
  | ReplaceRelatedRecord StableRecordIdentifier string "StableRecordIdentifier option"
  | ReplaceRelatedRecords StableRecordIdentifier string "StableRecordIdentifier list"

text \<open>The operations that \<open>update\<close> accepts.\<close>

datatype Operation =
    RemoteOp RemoteRelationshipOperation
  | AddToRelatedRecords StableRecordIdentifier string StableRecordIdentifier "nat option"
  | RemoveFromRelatedRecords StableRecordIdentifier string StableRecordIdentifier
  | MergeIdentifiers StableRecordIdentifier StableRecordIdentifier
  | UnknownOperation string StableRecordIdentifier string

datatype error = AssertionError string

type_synonym edge_ref = nat

type_synonym EdgeCache = "string \<Rightarrow> (string \<rightharpoonup> EdgeDefinition option)"

record PushedUpdates =
  belongsTo :: "RemoteRelationshipOperation list"
  hasMany :: "RemoteRelationshipOperation list"
  deletions :: "RemoteRelationshipOperation list"

text \<open>
  The graph. Edges are objects shared by reference (a node's dictionary, the transaction
  set, the set of updated relationships and local variables all point at them), so they
  live in a store \<open>edges\<close> addressed by \<open>edge_ref\<close>; \<open>nextRef\<close> is the next fresh
  address. A node is the dictionary of its edges in key insertion order; a key can hold
  \<open>undefined\<close> (\<open>None\<close>).

  Three fields record the calls made to external collaborators: \<open>scheduled\<close> the queue
  names given to the store's \<open>_schedule\<close>, \<open>notified\<close> the calls of \<open>notifyChange\<close>,
  \<open>upgradeCalls\<close> the calls of \<open>upgradeDefinition\<close>.
\<close>

record Graph =
  definitionCache :: EdgeCache
  metaCache :: "string \<rightharpoonup> (string \<rightharpoonup> UpgradedMeta)"
  potentialPolymorphicTypes :: "string \<rightharpoonup> (string \<rightharpoonup> bool)"
  identifiers :: "StableRecordIdentifier \<rightharpoonup> (string \<times> edge_ref option) list"
  isDestroyed :: bool
  willSyncRemote :: bool
  willSyncLocal :: bool
  pushedUpdates :: PushedUpdates
  updatedRelationships :: "edge_ref list"
  transaction :: "edge_ref list option"
  removing :: "StableRecordIdentifier option"
  edges :: "edge_ref \<rightharpoonup> GraphEdge"
  nextRef :: edge_ref
  scheduled :: "string list"
  notified :: "(StableRecordIdentifier \<times> string) list"
  upgradeCalls :: "(string \<times> string) list"

text \<open>
  The functions graph.ts imports from modules that are not part of the sources at hand
  are parameters of the model: the schema resolution, \<open>isLHS\<close>, \<open>isNew\<close>, the debug flag,
  the payload validation and the operations of the operation processor.
\<close>

record Deps =
  upgradeDefinition :: "Graph \<Rightarrow> StableRecordIdentifier \<Rightarrow> string \<Rightarrow> EdgeDefinition option \<times> EdgeCache"
  isLHS :: "EdgeDefinition \<Rightarrow> string \<Rightarrow> string \<Rightarrow> bool"
  isNew :: "StableRecordIdentifier \<Rightarrow> bool"
  DEBUG :: bool
  assertValidRelationshipPayload :: "Graph \<Rightarrow> RemoteRelationshipOperation \<Rightarrow> error option"
  mergeIdentifier :: "Operation \<Rightarrow> Graph \<Rightarrow> error + Graph"
  updateRelationshipOperation :: "RemoteRelationshipOperation \<Rightarrow> Graph \<Rightarrow> error + Graph"
  replaceRelatedRecord :: "RemoteRelationshipOperation \<Rightarrow> bool \<Rightarrow> Graph \<Rightarrow> error + Graph"
  replaceRelatedRecords :: "RemoteRelationshipOperation \<Rightarrow> bool \<Rightarrow> Graph \<Rightarrow> error + Graph"
  addToRelatedRecords :: "Operation \<Rightarrow> bool \<Rightarrow> Graph \<Rightarrow> error + Graph"
  removeFromRelatedRecords :: "Operation \<Rightarrow> bool \<Rightarrow> Graph \<Rightarrow> error + Graph"
  syncRemoteToLocal :: "edge_ref \<Rightarrow> Graph \<Rightarrow> error + Graph"

section \<open>Errors and loops\<close>

definition bindE :: "error + 'a \<Rightarrow> ('a \<Rightarrow> error + 'b) \<Rightarrow> error + 'b" where
  "bindE m f = (case m of Inl e \<Rightarrow> Inl e | Inr x \<Rightarrow> f x)"

text \<open>A \<open>for\<close> loop or \<open>forEach\<close> whose body can throw: the first error ends it.\<close>

fun forEachE :: "('a \<Rightarrow> 's \<Rightarrow> error + 's) \<Rightarrow> 'a list \<Rightarrow> 's \<Rightarrow> error + 's" where
  "forEachE f [] s = Inr s"
| "forEachE f (x # xs) s = (case f x s of Inl e \<Rightarrow> Inl e | Inr s' \<Rightarrow> forEachE f xs s')"

section \<open>The constructor and the node registry\<close>

definition constructor :: Graph where
  "constructor =
     \<lparr> definitionCache = (\<lambda>_. Map.empty), metaCache = Map.empty,
       potentialPolymorphicTypes = Map.empty, identifiers = Map.empty,
       isDestroyed = False, willSyncRemote = False, willSyncLocal = False,
       pushedUpdates = \<lparr> belongsTo = [], hasMany = [], deletions = [] \<rparr>,
       updatedRelationships = [], transaction = None, removing = None,
       edges = Map.empty, nextRef = 0, scheduled = [], notified = [], upgradeCalls = [] \<rparr>"

definition has :: "Graph \<Rightarrow> StableRecordIdentifier \<Rightarrow> string \<Rightarrow> bool" where
  "has g identifier propertyName =
     (case identifiers g identifier of
        None \<Rightarrow> False
      | Some relationships \<Rightarrow>
          (case map_of relationships propertyName of
             Some (Some r) \<Rightarrow> True
           | _ \<Rightarrow> False))"

definition getDefinition ::
  "Deps \<Rightarrow> Graph \<Rightarrow> StableRecordIdentifier \<Rightarrow> string \<Rightarrow> error + (UpgradedMeta \<times> Graph)" where
  "getDefinition d g identifier propertyName =
     (let defs = metaCache g (type identifier);
          meta = (case defs of None \<Rightarrow> None | Some ds \<Rightarrow> ds propertyName)
      in case meta of
           Some m \<Rightarrow> Inr (m, g)
         | None \<Rightarrow>
            (let (info, cache) = upgradeDefinition d g identifier propertyName;
                 g1 = g\<lparr> definitionCache := cache,
                         upgradeCalls := upgradeCalls g @ [(type identifier, propertyName)] \<rparr>
             in case info of
                  None \<Rightarrow> Inl (AssertionError ''Could not determine relationship information'')
                | Some i \<Rightarrow>
                   (let m = (if isLHS d i (type identifier) propertyName
                             then lhs_definition i else rhs_definition i);
                        ds = (case defs of None \<Rightarrow> Map.empty | Some ds \<Rightarrow> ds)
                    in Inr (m, g1\<lparr> metaCache :=
                                 (metaCache g1)(type identifier \<mapsto> ds(propertyName \<mapsto> m)) \<rparr>))))"

text \<open>
  Modelled from the spec: \<open>createResourceEdge\<close>, \<open>createCollectionEdge\<close> and
  \<open>createImplicitEdge\<close> live in \<open>edges/\<close>, which is not part of the sources at hand. A
  fresh edge has no related identifier, \<open>transactionRef\<close> zero, and by the spec creation
  has no side effect beyond allocation.
\<close>

definition createState :: RelationshipState where
  "createState = \<lparr> hasReceivedData = False, isEmpty = True, isStale = False,
                   hasDematerializedInverse = False \<rparr>"

definition createResourceEdge :: "UpgradedMeta \<Rightarrow> StableRecordIdentifier \<Rightarrow> GraphEdge" where
  "createResourceEdge meta identifier = ResourceEdge meta identifier createState 0 None None"

definition createCollectionEdge :: "UpgradedMeta \<Rightarrow> StableRecordIdentifier \<Rightarrow> GraphEdge" where
  "createCollectionEdge meta identifier = CollectionEdge meta identifier createState 0 [] [] [] []"

definition createImplicitEdge :: "UpgradedMeta \<Rightarrow> StableRecordIdentifier \<Rightarrow> GraphEdge" where
  "createImplicitEdge meta identifier = ImplicitEdge meta identifier [] []"

definition alloc :: "GraphEdge \<Rightarrow> Graph \<Rightarrow> edge_ref \<times> Graph" where
  "alloc e g = (nextRef g, g\<lparr> edges := (edges g)(nextRef g \<mapsto> e), nextRef := Suc (nextRef g) \<rparr>)"

definition setProperty ::
  "StableRecordIdentifier \<Rightarrow> string \<Rightarrow> edge_ref option \<Rightarrow> Graph \<Rightarrow> Graph" where
  "setProperty identifier propertyName v g =
     (case identifiers g identifier of
        None \<Rightarrow> g
      | Some relationships \<Rightarrow>
          g\<lparr> identifiers :=
               (identifiers g)(identifier \<mapsto> AList.update propertyName v relationships) \<rparr>)"

definition get ::
  "Deps \<Rightarrow> Graph \<Rightarrow> StableRecordIdentifier \<Rightarrow> string \<Rightarrow> error + (edge_ref \<times> Graph)" where
  "get d g identifier propertyName =
     (if propertyName = [] then Inl (AssertionError ''expected propertyName'')
      else
        let g1 = (case identifiers g identifier of
                    None \<Rightarrow> g\<lparr> identifiers := (identifiers g)(identifier \<mapsto> []) \<rparr>
                  | Some _ \<Rightarrow> g);
            relationships = (case identifiers g1 identifier of None \<Rightarrow> [] | Some rs \<Rightarrow> rs)
        in case map_of relationships propertyName of
             Some (Some r) \<Rightarrow> Inr (r, g1)
           | _ \<Rightarrow>
              bindE (getDefinition d g1 identifier propertyName) (\<lambda>(meta, g2).
                if kind meta = BelongsTo then
                  (let (r, g3) = alloc (createResourceEdge meta identifier) g2
                   in Inr (r, setProperty identifier propertyName (Some r) g3))
                else if kind meta = HasMany then
                  (let (r, g3) = alloc (createCollectionEdge meta identifier) g2
                   in Inr (r, setProperty identifier propertyName (Some r) g3))
                else if \<not> (kind meta = Implicit \<and> isImplicit meta)
                  then Inl (AssertionError ''Expected kind to be implicit'')
                else
                  (let (r, g3) = alloc (createImplicitEdge meta identifier) g2
                   in Inr (r, setProperty identifier propertyName (Some r) g3))))"

section \<open>Edge helpers\<close>

text \<open>
  Modelled from the spec: \<open>isBelongsTo\<close>, \<open>isHasMany\<close> and \<open>isImplicit\<close> (\<open>-utils.ts\<close>,
  not part of the sources at hand) are the runtime tag checks of the closed edge-kind
  union; graph.ts uses them as type guards (\<open>relationship is ResourceEdge\<close> and so on).
\<close>

fun isBelongsTo :: "GraphEdge \<Rightarrow> bool" where
  "isBelongsTo (ResourceEdge _ _ _ _ _ _) = True"
| "isBelongsTo _ = False"

fun isHasMany :: "GraphEdge \<Rightarrow> bool" where
  "isHasMany (CollectionEdge _ _ _ _ _ _ _ _) = True"
| "isHasMany _ = False"

fun isImplicitEdge :: "GraphEdge \<Rightarrow> bool" where
  "isImplicitEdge (ImplicitEdge _ _ _ _) = True"
| "isImplicitEdge _ = False"

fun map_state :: "(RelationshipState \<Rightarrow> RelationshipState) \<Rightarrow> GraphEdge \<Rightarrow> GraphEdge" where
  "map_state f (ResourceEdge m i s t l r) = ResourceEdge m i (f s) t l r"
| "map_state f (CollectionEdge m i s t ls rs lm rm) = CollectionEdge m i (f s) t ls rs lm rm"
| "map_state f (ImplicitEdge m i lm rm) = ImplicitEdge m i lm rm"

fun set_transactionRef :: "nat \<Rightarrow> GraphEdge \<Rightarrow> GraphEdge" where
  "set_transactionRef n (ResourceEdge m i s t l r) = ResourceEdge m i s n l r"
| "set_transactionRef n (CollectionEdge m i s t ls rs lm rm) = CollectionEdge m i s n ls rs lm rm"
| "set_transactionRef n (ImplicitEdge m i lm rm) = ImplicitEdge m i lm rm"

fun set_localState :: "StableRecordIdentifier option \<Rightarrow> GraphEdge \<Rightarrow> GraphEdge" where
  "set_localState v (ResourceEdge m i s t l r) = ResourceEdge m i s t v r"
| "set_localState v e = e"

fun clearMembers :: "GraphEdge \<Rightarrow> GraphEdge" where
  "clearMembers (ImplicitEdge m i lm rm) = ImplicitEdge m i [] []"
| "clearMembers (CollectionEdge m i s t ls rs lm rm) = CollectionEdge m i s t ls rs [] []"
| "clearMembers e = e"

text \<open>The reference count of an edge that can be in a transaction; an implicit edge has none.\<close>

fun refCount :: "GraphEdge \<Rightarrow> nat" where
  "refCount (ResourceEdge m i s t l r) = t"
| "refCount (CollectionEdge m i s t ls rs lm rm) = t"
| "refCount (ImplicitEdge m i lm rm) = 0"

definition updEdge :: "edge_ref \<Rightarrow> (GraphEdge \<Rightarrow> GraphEdge) \<Rightarrow> Graph \<Rightarrow> Graph" where
  "updEdge r f g = (case edges g r of None \<Rightarrow> g | Some e \<Rightarrow> g\<lparr> edges := (edges g)(r \<mapsto> f e) \<rparr>)"

text \<open>
  Modelled from the spec: \<open>notifyChange\<close> (\<open>-utils.ts\<close>, not part of the sources at hand)
  emits a change notification for an (identity, field) pair to the UI layer, an external
  collaborator; the model records the call.
\<close>

definition notifyChange :: "Graph \<Rightarrow> StableRecordIdentifier \<Rightarrow> string \<Rightarrow> Graph" where
  "notifyChange g identifier k = g\<lparr> notified := notified g @ [(identifier, k)] \<rparr>"

fun dedupe :: "'a list \<Rightarrow> 'a list \<Rightarrow> 'a list" where
  "dedupe seen [] = []"
| "dedupe seen (x # xs) = (if x \<in> set seen then dedupe seen xs else x # dedupe (x # seen) xs)"

text \<open>
  Modelled from the spec: \<open>forAllRelatedIdentifiers\<close> (\<open>-utils.ts\<close>, not part of the
  sources at hand) visits "every related identity on the edge": the identifiers of both
  state layers, each once.
\<close>

fun relatedIdentifiers :: "GraphEdge \<Rightarrow> StableRecordIdentifier list" where
  "relatedIdentifiers (ResourceEdge m i s t l r) = dedupe [] (List.map_filter id [r, l])"
| "relatedIdentifiers (CollectionEdge m i s t ls rs lm rm) = dedupe [] (ls @ rs)"
| "relatedIdentifiers (ImplicitEdge m i lm rm) = dedupe [] (lm @ rm)"

definition forAllRelatedIdentifiers ::
  "edge_ref \<Rightarrow> (StableRecordIdentifier \<Rightarrow> Graph \<Rightarrow> error + Graph) \<Rightarrow> Graph \<Rightarrow> error + Graph" where
  "forAllRelatedIdentifiers rel cb g =
     (case edges g rel of
        None \<Rightarrow> Inr g
      | Some e \<Rightarrow> forEachE cb (relatedIdentifiers e) g)"

text \<open>
  Modelled from the spec: \<open>removeIdentifierCompletelyFromRelationship\<close> (\<open>-utils.ts\<close>, not
  part of the sources at hand) is the "complete-removal primitive" that "fully severs the
  member": the identifier leaves both state layers and both membership sets of the edge.
\<close>

fun removeIdentifierCompletely :: "StableRecordIdentifier \<Rightarrow> GraphEdge \<Rightarrow> GraphEdge" where
  "removeIdentifierCompletely v (ResourceEdge m i s t l r) =
     ResourceEdge m i s t (if l = Some v then None else l) (if r = Some v then None else r)"
| "removeIdentifierCompletely v (CollectionEdge m i s t ls rs lm rm) =
     CollectionEdge m i s t (removeAll v ls) (removeAll v rs) (removeAll v lm) (removeAll v rm)"
| "removeIdentifierCompletely v (ImplicitEdge m i lm rm) =
     ImplicitEdge m i (removeAll v lm) (removeAll v rm)"

definition removeIdentifierCompletelyFromRelationship ::
  "Graph \<Rightarrow> edge_ref \<Rightarrow> StableRecordIdentifier \<Rightarrow> Graph" where
  "removeIdentifierCompletelyFromRelationship g relationship v =
     updEdge relationship (removeIdentifierCompletely v) g"

section \<open>The dematerialization engine\<close>

fun clearRelationship :: "GraphEdge \<Rightarrow> GraphEdge" where
  "clearRelationship (ResourceEdge m i s t l r) =
     ResourceEdge m i (s\<lparr> hasReceivedData := False, isEmpty := True \<rparr>) t None None"
| "clearRelationship (CollectionEdge m i s t ls rs lm rm) = CollectionEdge m i s t [] [] [] []"
| "clearRelationship (ImplicitEdge m i lm rm) = ImplicitEdge m i [] []"

text \<open>
  The to-one branch of \<open>removeDematerializedInverse\<close>, on the edge object. \<open>localInverse\<close>
  is the edge's own \<open>localState\<close>, read before anything is written.
\<close>

fun removeDematerializedResource :: "Deps \<Rightarrow> GraphEdge \<Rightarrow> GraphEdge" where
  "removeDematerializedResource d (ResourceEdge m i s t l r) =
     (let localInverse = l in
      if \<not> isAsync m \<or> (case localInverse of None \<Rightarrow> False | Some li \<Rightarrow> isNew d li) then
        (let l1 = (if l = localInverse \<and> localInverse \<noteq> None then None else l)
         in if r = localInverse \<and> localInverse \<noteq> None then
              ResourceEdge m i (s\<lparr> hasReceivedData := True, isEmpty := True \<rparr>) t
                (case l1 of None \<Rightarrow> None | Some x \<Rightarrow> if \<not> isNew d x then None else Some x) None
            else ResourceEdge m i s t l1 r)
      else ResourceEdge m i (s\<lparr> hasDematerializedInverse := True \<rparr>) t l r)"
| "removeDematerializedResource d e = e"

definition removeDematerializedInverse ::
  "Deps \<Rightarrow> Graph \<Rightarrow> edge_ref \<Rightarrow> StableRecordIdentifier \<Rightarrow> bool \<Rightarrow> Graph" where
  "removeDematerializedInverse d g relationship inverseIdentifier silenceNotifications =
     (case edges g relationship of
        None \<Rightarrow> g
      | Some e \<Rightarrow>
         (let g1 =
            (if isBelongsTo e then updEdge relationship (removeDematerializedResource d) g
             else if \<not> isAsync (edge_definition e) \<or> isNew d inverseIdentifier
               then removeIdentifierCompletelyFromRelationship g relationship inverseIdentifier
             else updEdge relationship (map_state (\<lambda>s. s\<lparr> hasDematerializedInverse := True \<rparr>)) g)
          in if \<not> silenceNotifications
             then notifyChange g1 (edge_identifier e) (key (edge_definition e))
             else g1))"

definition notifyInverseOfDematerialization ::
  "Deps \<Rightarrow> Graph \<Rightarrow> StableRecordIdentifier \<Rightarrow> string \<Rightarrow> StableRecordIdentifier \<Rightarrow> bool
     \<Rightarrow> error + Graph" where
  "notifyInverseOfDematerialization d g inverseIdentifier invKey identifier silenceNotifications =
     (if \<not> has g inverseIdentifier invKey then Inr g
      else bindE (get d g inverseIdentifier invKey) (\<lambda>(relationship, g1).
        case edges g1 relationship of
          None \<Rightarrow> Inr g1
        | Some e \<Rightarrow>
           if isImplicitEdge e then Inl (AssertionError ''expected no implicit'')
           else if (case e of
                      ResourceEdge m i s t l r \<Rightarrow> l = None \<or> Some identifier = l
                    | _ \<Rightarrow> True)
             then Inr (removeDematerializedInverse d g1 relationship identifier silenceNotifications)
           else Inr g1))"

fun isReleasableLoop ::
  "Deps \<Rightarrow> Graph \<Rightarrow> StableRecordIdentifier \<Rightarrow> (string \<times> edge_ref option) list \<Rightarrow> bool" where
  "isReleasableLoop d g identifier [] = True"
| "isReleasableLoop d g identifier ((k, None) # rest) = isReleasableLoop d g identifier rest"
| "isReleasableLoop d g identifier ((k, Some r) # rest) =
     (case edges g r of
        None \<Rightarrow> isReleasableLoop d g identifier rest
      | Some relationship \<Rightarrow>
          if inverseIsAsync (edge_definition relationship) \<and> \<not> isNew d identifier then False
          else isReleasableLoop d g identifier rest)"

definition isReleasable :: "Deps \<Rightarrow> Graph \<Rightarrow> StableRecordIdentifier \<Rightarrow> bool" where
  "isReleasable d g identifier =
     (case identifiers g identifier of
        None \<Rightarrow> True
      | Some relationships \<Rightarrow> isReleasableLoop d g identifier relationships)"

definition removeCompletelyFromInverse :: "Deps \<Rightarrow> Graph \<Rightarrow> edge_ref \<Rightarrow> error + Graph" where
  "removeCompletelyFromInverse d g relationship =
     (case edges g relationship of
        None \<Rightarrow> Inr g
      | Some e \<Rightarrow>
         (let identifier = edge_identifier e;
              invKey = inverseKey (edge_definition e)
          in bindE
               (forAllRelatedIdentifiers relationship
                  (\<lambda>inverseIdentifier g'.
                     if has g' inverseIdentifier invKey
                     then bindE (get d g' inverseIdentifier invKey) (\<lambda>(r, g'').
                            Inr (removeIdentifierCompletelyFromRelationship g'' r identifier))
                     else Inr g') g)
               (\<lambda>g1.
                  if isBelongsTo e then
                    Inr (updEdge relationship
                           (\<lambda>e'. set_localState None
                                    (if \<not> isAsync (edge_definition e') then clearRelationship e' else e')) g1)
                  else if isHasMany e then
                    (if \<not> isAsync (edge_definition e)
                     then Inr (notifyChange (updEdge relationship clearRelationship g1)
                                 (edge_identifier e) (key (edge_definition e)))
                     else Inr g1)
                  else Inr (updEdge relationship clearMembers g1))))"

definition destroyRelationship :: "Deps \<Rightarrow> Graph \<Rightarrow> edge_ref \<Rightarrow> bool \<Rightarrow> error + Graph" where
  "destroyRelationship d g rel silenceNotifications =
     (case edges g rel of
        None \<Rightarrow> Inr g
      | Some e \<Rightarrow>
         if isImplicitEdge e then
           (if isReleasable d g (edge_identifier e) then removeCompletelyFromInverse d g rel
            else Inr g)
         else
           (let identifier = edge_identifier e;
                m = edge_definition e
            in bindE
                 (if \<not> inverseIsImplicit m then
                    forAllRelatedIdentifiers rel
                      (\<lambda>inverseIdentifier g'.
                         notifyInverseOfDematerialization d g' inverseIdentifier (inverseKey m)
                           identifier silenceNotifications) g
                  else Inr g)
                 (\<lambda>g1.
                    if \<not> inverseIsImplicit m \<and> \<not> inverseIsAsync m then
                      (let g2 = updEdge rel
                                  (\<lambda>e'. clearRelationship (map_state (\<lambda>s. s\<lparr> isStale := True \<rparr>) e')) g1
                       in if \<not> isAsync m \<and> \<not> silenceNotifications
                          then Inr (notifyChange g2 identifier (key m))
                          else Inr g2)
                    else Inr g1)))"

text \<open>
  One step of the \<open>forEach\<close> of \<open>unload\<close>: the key is read from the node as it is now.
\<close>

definition unloadKey ::
  "Deps \<Rightarrow> StableRecordIdentifier \<Rightarrow> bool \<Rightarrow> string \<Rightarrow> Graph \<Rightarrow> error + Graph" where
  "unloadKey d identifier silenceNotifications k g =
     (case identifiers g identifier of
        None \<Rightarrow> Inr g
      | Some relationships \<Rightarrow>
         (case map_of relationships k of
            Some (Some rel) \<Rightarrow>
              bindE (destroyRelationship d g rel silenceNotifications) (\<lambda>g1.
                if (case edges g1 rel of None \<Rightarrow> False | Some e \<Rightarrow> isImplicitEdge e)
                then Inr (setProperty identifier k None g1)
                else Inr g1)
          | _ \<Rightarrow> Inr g))"

definition unload :: "Deps \<Rightarrow> Graph \<Rightarrow> StableRecordIdentifier \<Rightarrow> bool \<Rightarrow> error + Graph" where
  "unload d g identifier silenceNotifications =
     (case identifiers g identifier of
        None \<Rightarrow> Inr g
      | Some relationships \<Rightarrow>
          forEachE (unloadKey d identifier silenceNotifications) (map fst relationships) g)"

definition remove :: "Deps \<Rightarrow> Graph \<Rightarrow> StableRecordIdentifier \<Rightarrow> error + Graph" where
  "remove d g identifier =
     (if removing g \<noteq> None then Inl (AssertionError ''Cannot remove while still removing'')
      else bindE (unload d (g\<lparr> removing := Some identifier \<rparr>) identifier False) (\<lambda>g1.
             Inr (g1\<lparr> identifiers := (identifiers g1)(identifier := None), removing := None \<rparr>)))"

section \<open>The update scheduler and the operation processor\<close>

text \<open>
  The store's \<open>_schedule(queue, callback)\<close> is an external collaborator: the model records
  the queue name of each request. The callback of \<open>''coalesce''\<close> is \<open>_flushRemoteQueue\<close>
  and that of \<open>''sync''\<close> is \<open>_flushLocalQueue\<close>.
\<close>

definition schedule :: "string \<Rightarrow> Graph \<Rightarrow> Graph" where
  "schedule queue g = g\<lparr> scheduled := scheduled g @ [queue] \<rparr>"

definition pushDeletion :: "RemoteRelationshipOperation \<Rightarrow> Graph \<Rightarrow> Graph" where
  "pushDeletion op g =
     g\<lparr> pushedUpdates := (pushedUpdates g)\<lparr> deletions := deletions (pushedUpdates g) @ [op] \<rparr> \<rparr>"

definition pushBelongsTo :: "RemoteRelationshipOperation \<Rightarrow> Graph \<Rightarrow> Graph" where
  "pushBelongsTo op g =
     g\<lparr> pushedUpdates := (pushedUpdates g)\<lparr> belongsTo := belongsTo (pushedUpdates g) @ [op] \<rparr> \<rparr>"

definition pushHasMany :: "RemoteRelationshipOperation \<Rightarrow> Graph \<Rightarrow> Graph" where
  "pushHasMany op g =
     g\<lparr> pushedUpdates := (pushedUpdates g)\<lparr> hasMany := hasMany (pushedUpdates g) @ [op] \<rparr> \<rparr>"

text \<open>The first half of \<open>push\<close>: the operation goes to one of the three queues.\<close>

fun enqueue :: "Deps \<Rightarrow> RemoteRelationshipOperation \<Rightarrow> Graph \<Rightarrow> error + Graph" where
  "enqueue d (DeleteRecord r) g = Inr (pushDeletion (DeleteRecord r) g)"
| "enqueue d (ReplaceRelatedRecord r f v) g = Inr (pushBelongsTo (ReplaceRelatedRecord r f v) g)"
| "enqueue d (UpdateRelationship r f v) g =
     bindE (getDefinition d g r f) (\<lambda>(definition, g1).
       case kind definition of
         Implicit \<Rightarrow> Inl (AssertionError ''Cannot push a remote update for an implicit relationship'')
       | HasMany \<Rightarrow> Inr (pushHasMany (UpdateRelationship r f v) g1)
       | BelongsTo \<Rightarrow> Inr (pushBelongsTo (UpdateRelationship r f v) g1))"
| "enqueue d (ReplaceRelatedRecords r f v) g =
     bindE (getDefinition d g r f) (\<lambda>(definition, g1).
       case kind definition of
         Implicit \<Rightarrow> Inl (AssertionError ''Cannot push a remote update for an implicit relationship'')
       | HasMany \<Rightarrow> Inr (pushHasMany (ReplaceRelatedRecords r f v) g1)
       | BelongsTo \<Rightarrow> Inr (pushBelongsTo (ReplaceRelatedRecords r f v) g1))"

definition push :: "Deps \<Rightarrow> RemoteRelationshipOperation \<Rightarrow> Graph \<Rightarrow> error + Graph" where
  "push d op g =
     bindE (enqueue d op g) (\<lambda>g1.
       if \<not> willSyncRemote g1
       then Inr (schedule ''coalesce'' (g1\<lparr> willSyncRemote := True \<rparr>))
       else Inr g1)"

text \<open>The record and field an operation addresses; \<open>deleteRecord\<close> and \<open>mergeIdentifiers\<close> have no field.\<close>

fun target :: "Operation \<Rightarrow> (StableRecordIdentifier \<times> string) option" where
  "target (RemoteOp (DeleteRecord r)) = None"
| "target (MergeIdentifiers r v) = None"
| "target (RemoteOp (UpdateRelationship r f v)) = Some (r, f)"
| "target (RemoteOp (ReplaceRelatedRecord r f v)) = Some (r, f)"
| "target (RemoteOp (ReplaceRelatedRecords r f v)) = Some (r, f)"
| "target (AddToRelatedRecords r f v i) = Some (r, f)"
| "target (RemoveFromRelatedRecords r f v) = Some (r, f)"
| "target (UnknownOperation n r f) = Some (r, f)"

text \<open>The assertion that opens \<open>update\<close>; evaluating it calls \<open>get\<close>, which can create the edge.\<close>

definition assertNotImplicit :: "Deps \<Rightarrow> Operation \<Rightarrow> Graph \<Rightarrow> error + Graph" where
  "assertNotImplicit d op g =
     (case target op of
        None \<Rightarrow> Inr g
      | Some (r, f) \<Rightarrow>
          bindE (get d g r f) (\<lambda>(rel, g1).
            if (case edges g1 rel of None \<Rightarrow> False | Some e \<Rightarrow> isImplicitEdge e)
            then Inl (AssertionError ''Cannot update an implicit relationship'')
            else Inr g1))"

text \<open>One step of the \<open>forEach\<close> of the \<open>deleteRecord\<close> case of \<open>update\<close>.\<close>

definition deleteKey :: "Deps \<Rightarrow> StableRecordIdentifier \<Rightarrow> string \<Rightarrow> Graph \<Rightarrow> error + Graph" where
  "deleteKey d identifier k g =
     (case identifiers g identifier of
        None \<Rightarrow> Inr g
      | Some relationships \<Rightarrow>
         (case map_of relationships k of
            Some (Some rel) \<Rightarrow> removeCompletelyFromInverse d (setProperty identifier k None g) rel
          | _ \<Rightarrow> Inr g))"

fun dispatch :: "Deps \<Rightarrow> Operation \<Rightarrow> bool \<Rightarrow> Graph \<Rightarrow> error + Graph" where
  "dispatch d (MergeIdentifiers r v) isRemote g =
     (case identifiers g r of
        None \<Rightarrow> Inr g
      | Some relationships \<Rightarrow> mergeIdentifier d (MergeIdentifiers r v) g)"
| "dispatch d (RemoteOp (UpdateRelationship r f v)) isRemote g =
     (if \<not> isRemote
      then Inl (AssertionError ''Can only perform the operation updateRelationship on remote state'')
      else case (if DEBUG d then assertValidRelationshipPayload d g (UpdateRelationship r f v) else None) of
             Some e \<Rightarrow> Inl e
           | None \<Rightarrow> updateRelationshipOperation d (UpdateRelationship r f v) g)"
| "dispatch d (RemoteOp (DeleteRecord identifier)) isRemote g =
     (if \<not> isRemote
      then Inl (AssertionError ''Can only perform the operation deleteRelationship on remote state'')
      else case identifiers g identifier of
             None \<Rightarrow> Inr g
           | Some relationships \<Rightarrow>
               bindE (forEachE (deleteKey d identifier) (map fst relationships) g) (\<lambda>g1.
                 Inr (g1\<lparr> identifiers := (identifiers g1)(identifier := None) \<rparr>)))"
| "dispatch d (RemoteOp (ReplaceRelatedRecord r f v)) isRemote g =
     replaceRelatedRecord d (ReplaceRelatedRecord r f v) isRemote g"
| "dispatch d (AddToRelatedRecords r f v i) isRemote g =
     (if isRemote
      then Inl (AssertionError ''Can only perform the operation addToRelatedRecords on local state'')
      else addToRelatedRecords d (AddToRelatedRecords r f v i) isRemote g)"
| "dispatch d (RemoveFromRelatedRecords r f v) isRemote g =
     (if isRemote
      then Inl (AssertionError ''Can only perform the operation removeFromRelatedRecords on local state'')
      else removeFromRelatedRecords d (RemoveFromRelatedRecords r f v) isRemote g)"
| "dispatch d (RemoteOp (ReplaceRelatedRecords r f v)) isRemote g =
     replaceRelatedRecords d (ReplaceRelatedRecords r f v) isRemote g"
| "dispatch d (UnknownOperation n r f) isRemote g =
     Inl (AssertionError ''No local relationship update operation exists'')"

definition update :: "Deps \<Rightarrow> Operation \<Rightarrow> bool \<Rightarrow> Graph \<Rightarrow> error + Graph" where
  "update d op isRemote g = bindE (assertNotImplicit d op g) (dispatch d op isRemote)"

definition scheduleLocalSync :: "Graph \<Rightarrow> edge_ref \<Rightarrow> Graph" where
  "scheduleLocalSync g relationship =
     (let g1 = g\<lparr> updatedRelationships :=
                    (if relationship \<in> set (updatedRelationships g) then updatedRelationships g
                     else updatedRelationships g @ [relationship]) \<rparr>
      in if \<not> willSyncLocal g1 then schedule ''sync'' (g1\<lparr> willSyncLocal := True \<rparr>) else g1)"


definition finalize :: "Graph \<Rightarrow> Graph" where
  "finalize g =
     (case transaction g of
        None \<Rightarrow> g
      | Some t \<Rightarrow> (fold (\<lambda>v. updEdge v (set_transactionRef 0)) t g)\<lparr> transaction := None \<rparr>)"

definition flushRemoteQueue :: "Deps \<Rightarrow> Graph \<Rightarrow> error + Graph" where
  "flushRemoteQueue d g =
     (if \<not> willSyncRemote g then Inr g
      else
        let g1 = g\<lparr> transaction := Some [], willSyncRemote := False \<rparr>;
            deletions' = deletions (pushedUpdates g1);
            hasMany' = hasMany (pushedUpdates g1);
            belongsTo' = belongsTo (pushedUpdates g1);
            g2 = g1\<lparr> pushedUpdates := \<lparr> belongsTo = [], hasMany = [], deletions = [] \<rparr> \<rparr>
        in bindE (forEachE (\<lambda>op. update d (RemoteOp op) True) deletions' g2) (\<lambda>g3.
           bindE (forEachE (\<lambda>op. update d (RemoteOp op) True) hasMany' g3) (\<lambda>g4.
           bindE (forEachE (\<lambda>op. update d (RemoteOp op) True) belongsTo' g4) (\<lambda>g5.
           Inr (finalize g5)))))"

definition flushLocalQueue :: "Deps \<Rightarrow> Graph \<Rightarrow> error + Graph" where
  "flushLocalQueue d g =
     (if \<not> willSyncLocal g then Inr g
      else
        let g1 = g\<lparr> willSyncLocal := False \<rparr>;
            updated = updatedRelationships g1;
            g2 = g1\<lparr> updatedRelationships := [] \<rparr>
        in forEachE (syncRemoteToLocal d) updated g2)"

section \<open>Notions used to state the properties\<close>

text \<open>
  The definition cached for a (type, field) pair, and the queue an operation belongs to once
  its definition is cached: \<open>push\<close> sends a \<open>deleteRecord\<close> to the deletions, a
  \<open>replaceRelatedRecord\<close> to the to-one queue and any other operation to the queue of
  its definition's kind.
\<close>

definition lookupMeta :: "Graph \<Rightarrow> string \<Rightarrow> string \<Rightarrow> UpgradedMeta option" where
  "lookupMeta g t f = (case metaCache g t of None \<Rightarrow> None | Some ds \<Rightarrow> ds f)"

fun category :: "Graph \<Rightarrow> RemoteRelationshipOperation \<Rightarrow> Kind option" where
  "category g (DeleteRecord r) = None"
| "category g (ReplaceRelatedRecord r f v) = Some BelongsTo"
| "category g (UpdateRelationship r f v) = map_option kind (lookupMeta g (type r) f)"
| "category g (ReplaceRelatedRecords r f v) = map_option kind (lookupMeta g (type r) f)"

fun isDeleteRecord :: "RemoteRelationshipOperation \<Rightarrow> bool" where
  "isDeleteRecord (DeleteRecord r) = True"
| "isDeleteRecord _ = False"

text \<open>The cache of definitions only grows.\<close>

definition metaExtends :: "Graph \<Rightarrow> Graph \<Rightarrow> bool" where
  "metaExtends g g' = (\<forall>t f m. lookupMeta g t f = Some m \<longrightarrow> lookupMeta g' t f = Some m)"

definition emptyQueues :: PushedUpdates where
  "emptyQueues = \<lparr> belongsTo = [], hasMany = [], deletions = [] \<rparr>"

text \<open>The number of operations waiting in the three queues.\<close>

definition queued :: "Graph \<Rightarrow> nat" where
  "queued g = length (deletions (pushedUpdates g)) + length (hasMany (pushedUpdates g)) +
              length (belongsTo (pushedUpdates g))"

text \<open>The calls of graph.ts that can reach the schema resolution.\<close>

datatype ResolverCall =
    CallGetDefinition StableRecordIdentifier string
  | CallGet StableRecordIdentifier string
  | CallPush RemoteRelationshipOperation

fun runCall :: "Deps \<Rightarrow> ResolverCall \<Rightarrow> Graph \<Rightarrow> error + Graph" where
  "runCall d (CallGetDefinition i p) g = bindE (getDefinition d g i p) (\<lambda>(m, g'). Inr g')"
| "runCall d (CallGet i p) g = bindE (get d g i p) (\<lambda>(r, g'). Inr g')"
| "runCall d (CallPush op) g = push d op g"

text \<open>
  The invariant of the definition cache: a pair that is not cached has never been
  resolved, and no pair has been resolved twice.
\<close>

definition cacheInv :: "Graph \<Rightarrow> bool" where
  "cacheInv g =
     (\<forall>t f. (lookupMeta g t f = None \<longrightarrow> count_list (upgradeCalls g) (t, f) = 0) \<and>
            count_list (upgradeCalls g) (t, f) \<le> 1)"

text \<open>
  The two steps of \<open>get\<close> before and after the lookup: the graph once the node exists, and
  the edge that is created for a definition.
\<close>

definition getBase :: "Graph \<Rightarrow> StableRecordIdentifier \<Rightarrow> Graph" where
  "getBase g i = (case identifiers g i of
                    None \<Rightarrow> g\<lparr> identifiers := (identifiers g)(i \<mapsto> []) \<rparr>
                  | Some _ \<Rightarrow> g)"

definition newEdge :: "UpgradedMeta \<Rightarrow> StableRecordIdentifier \<Rightarrow> GraphEdge" where
  "newEdge m i = (if kind m = BelongsTo then createResourceEdge m i
                  else if kind m = HasMany then createCollectionEdge m i
                  else createImplicitEdge m i)"

text \<open>
  \<open>remove\<close> as claim C8 words it: the assertion fires when a removal of a different
  identifier is in progress, and otherwise the node is unloaded and deleted.
\<close>

definition remove_as_claimed :: "Deps \<Rightarrow> Graph \<Rightarrow> StableRecordIdentifier \<Rightarrow> error + Graph" where
  "remove_as_claimed d g identifier =
     (if removing g \<noteq> None \<and> removing g \<noteq> Some identifier
      then Inl (AssertionError ''Cannot remove while still removing'')
      else bindE (unload d (g\<lparr> removing := Some identifier \<rparr>) identifier False) (\<lambda>g1.
             Inr (g1\<lparr> identifiers := (identifiers g1)(identifier := None), removing := None \<rparr>)))"

text \<open>
  The transaction invariant: an edge with a non-zero \<open>transactionRef\<close> is held by the open
  transaction. Outside a flush there is no transaction and every \<open>transactionRef\<close> is
  zero. \<open>opsPreserveTx\<close> is what the invariant needs of the operations that live in other
  modules: in remote mode they change \<open>transactionRef\<close> through \<open>_addToTransaction\<close> only.
\<close>

definition txInv :: "Graph \<Rightarrow> bool" where
  "txInv g = (\<forall>r e. edges g r = Some e \<longrightarrow> refCount e \<noteq> 0 \<longrightarrow>
                (\<exists>t. transaction g = Some t \<and> r \<in> set t))"

definition outsideFlush :: "Graph \<Rightarrow> bool" where
  "outsideFlush g = (transaction g = None \<and> (\<forall>r e. edges g r = Some e \<longrightarrow> refCount e = 0))"


text \<open>An edge is cleared when neither state layer and neither membership set holds an identifier.\<close>

fun isCleared :: "GraphEdge \<Rightarrow> bool" where
  "isCleared (ResourceEdge m i s t l r) = (l = None \<and> r = None)"
| "isCleared (CollectionEdge m i s t ls rs lm rm) = (ls = [] \<and> rs = [] \<and> lm = [] \<and> rm = [])"
| "isCleared (ImplicitEdge m i lm rm) = (lm = [] \<and> rm = [])"

text \<open>An edge object keeps its variant, its definition and its identifier for life.\<close>

definition sameEdge :: "GraphEdge \<Rightarrow> GraphEdge \<Rightarrow> bool" where
  "sameEdge e e' = (isBelongsTo e' = isBelongsTo e \<and> isHasMany e' = isHasMany e \<and>
                    isImplicitEdge e' = isImplicitEdge e \<and>
                    edge_definition e' = edge_definition e \<and> edge_identifier e' = edge_identifier e)"

definition keepsEdges :: "Graph \<Rightarrow> Graph \<Rightarrow> bool" where
  "keepsEdges g g' = (\<forall>r e. edges g r = Some e \<longrightarrow> (\<exists>e'. edges g' r = Some e' \<and> sameEdge e e'))"

text \<open>
  What the inverse notifications of \<open>destroyRelationship\<close> do to the graph: every edge
  object stays, and the notifications they emit are appended, none when silenced.
\<close>

definition notifyStep :: "bool \<Rightarrow> Graph \<Rightarrow> Graph \<Rightarrow> bool" where
  "notifyStep s g g' = (keepsEdges g g' \<and> (\<exists>ns. notified g' = notified g @ ns \<and> (s \<longrightarrow> ns = [])))"


text \<open>
  Every identifier an edge holds: in either state layer, and for a to-many or implicit edge
  in either member set.
\<close>

fun holds :: "GraphEdge \<Rightarrow> StableRecordIdentifier set" where
  "holds (ResourceEdge m i s t l r) = set_option l \<union> set_option r"
| "holds (CollectionEdge m i s t ls rs lm rm) = set ls \<union> set rs \<union> set lm \<union> set rm"
| "holds (ImplicitEdge m i lm rm) = set lm \<union> set rm"

text \<open>
  The edges on which a notification of the dematerialization of \<open>x\<close> acts on \<open>x\<close> itself:
  a to-one edge whose \<open>localState\<close> is \<open>x\<close>, and any to-many edge.
\<close>

fun pointsAt :: "StableRecordIdentifier \<Rightarrow> GraphEdge \<Rightarrow> bool" where
  "pointsAt x (ResourceEdge m i s t l r) = (l = Some x)"
| "pointsAt x (CollectionEdge m i s t ls rs lm rm) = True"
| "pointsAt x (ImplicitEdge m i lm rm) = False"

text \<open>
  What unloading \<open>x\<close> may do to one edge object: it stays the same edge, it never comes
  to hold \<open>x\<close>, an edge that points at \<open>x\<close> keeps doing so until it no longer holds \<open>x\<close>, and
  an edge marked \<open>keep\<close> keeps every other identifier it relates.
\<close>

definition edgeStep :: "StableRecordIdentifier \<Rightarrow> bool \<Rightarrow> GraphEdge \<Rightarrow> GraphEdge \<Rightarrow> bool" where
  "edgeStep x keep e e' =
     (sameEdge e e' \<and> (x \<notin> holds e \<longrightarrow> x \<notin> holds e') \<and>
      (pointsAt x e \<longrightarrow> x \<notin> holds e' \<or> pointsAt x e') \<and>
      (keep \<longrightarrow> (\<forall>a. a \<noteq> x \<longrightarrow> a \<in> set (relatedIdentifiers e) \<longrightarrow>
                      a \<in> set (relatedIdentifiers e'))))"









section \<open>An example schema and environment\<close>

definition postAuthor :: UpgradedMeta where
  "postAuthor = \<lparr> kind = BelongsTo, key = ''author'', inverseKey = ''posts'', isAsync = False,
                  isImplicit = False, inverseIsAsync = False, inverseIsImplicit = False \<rparr>"

definition userPosts :: UpgradedMeta where
  "userPosts = \<lparr> kind = HasMany, key = ''posts'', inverseKey = ''author'', isAsync = False,
                 isImplicit = False, inverseIsAsync = False, inverseIsImplicit = False \<rparr>"

definition postEditor :: UpgradedMeta where
  "postEditor = \<lparr> kind = BelongsTo, key = ''editor'', inverseKey = ''works'', isAsync = True,
                  isImplicit = False, inverseIsAsync = True, inverseIsImplicit = False \<rparr>"

definition userWorks :: UpgradedMeta where
  "userWorks = \<lparr> kind = HasMany, key = ''works'', inverseKey = ''editor'', isAsync = True,
                 isImplicit = False, inverseIsAsync = True, inverseIsImplicit = False \<rparr>"

definition postApprover :: UpgradedMeta where
  "postApprover = \<lparr> kind = BelongsTo, key = ''approver'', inverseKey = ''approvals'', isAsync = True,
                    isImplicit = False, inverseIsAsync = False, inverseIsImplicit = False \<rparr>"

definition userApprovals :: UpgradedMeta where
  "userApprovals = \<lparr> kind = HasMany, key = ''approvals'', inverseKey = ''approver'', isAsync = False,
                   isImplicit = False, inverseIsAsync = True, inverseIsImplicit = False \<rparr>"

definition exampleSchema :: "string \<Rightarrow> string \<Rightarrow> EdgeDefinition option" where
  "exampleSchema t f =
     (if (t = ''post'' \<and> f = ''author'') \<or> (t = ''user'' \<and> f = ''posts'')
        then Some \<lparr> lhs_definition = postAuthor, rhs_definition = userPosts \<rparr>
      else if (t = ''post'' \<and> f = ''editor'') \<or> (t = ''user'' \<and> f = ''works'')
        then Some \<lparr> lhs_definition = postEditor, rhs_definition = userWorks \<rparr>
      else None)"

definition exampleDeps :: Deps where
  "exampleDeps =
     \<lparr> upgradeDefinition = (\<lambda>g i p. (exampleSchema (type i) p, definitionCache g)),
       isLHS = (\<lambda>info t p. t = ''post''),
       isNew = (\<lambda>i. False),
       DEBUG = False,
       assertValidRelationshipPayload = (\<lambda>g op. None),
       mergeIdentifier = (\<lambda>op g. Inr g),
       updateRelationshipOperation = (\<lambda>op g. Inr g),
       replaceRelatedRecord = (\<lambda>op isRemote g. Inr g),
       replaceRelatedRecords = (\<lambda>op isRemote g. Inr g),
       addToRelatedRecords = (\<lambda>op isRemote g. Inr g),
       removeFromRelatedRecords = (\<lambda>op isRemote g. Inr g),
       syncRemoteToLocal = (\<lambda>rel g. Inr g) \<rparr>"

definition post1 :: StableRecordIdentifier where "post1 = Identifier ''post'' ''post:1''"

definition user1 :: StableRecordIdentifier where "user1 = Identifier ''user'' ''user:1''"

definition examplePushes :: "RemoteRelationshipOperation list" where
  "examplePushes =
     [ReplaceRelatedRecord post1 ''author'' (Some user1),
      UpdateRelationship user1 ''posts'' (CollectionPayload [post1]),
      DeleteRecord post1]"

definition post2 :: StableRecordIdentifier where "post2 = Identifier ''post'' ''post:2''"

definition post3 :: StableRecordIdentifier where "post3 = Identifier ''post'' ''post:3''"

definition comment1 :: StableRecordIdentifier where "comment1 = Identifier ''comment'' ''comment:1''"

definition loadedState :: RelationshipState where
  "loadedState = \<lparr> hasReceivedData = True, isEmpty = False, isStale = False,
                   hasDematerializedInverse = False \<rparr>"

definition exampleGraph :: Graph where
  "exampleGraph = constructor
     \<lparr> identifiers :=
         [post1 \<mapsto> [(''author'', Some 0), (''editor'', Some 1)],
          user1 \<mapsto> [(''posts'', Some 2), (''works'', Some 3)],
          comment1 \<mapsto> [(''post'', None)],
          post2 \<mapsto> [(''editor'', Some 4)]],
       edges :=
         [0 \<mapsto> ResourceEdge postAuthor post1 loadedState 0 (Some user1) (Some user1),
          1 \<mapsto> ResourceEdge postEditor post1 loadedState 0 (Some user1) (Some user1),
          2 \<mapsto> CollectionEdge userPosts user1 loadedState 0 [post1] [post1] [post1] [post1],
          3 \<mapsto> CollectionEdge userWorks user1 loadedState 0 [post1] [post1] [post1] [post1],
          4 \<mapsto> ResourceEdge postEditor post2 createState 0 None None],
       nextRef := 5 \<rparr>"

text \<open>An asynchronous to-one field whose inverse is a synchronous to-many field.\<close>

definition approvalGraph :: Graph where
  "approvalGraph = constructor
     \<lparr> identifiers :=
         [post3 \<mapsto> [(''approver'', Some 0)],
          user1 \<mapsto> [(''approvals'', Some 1)]],
       edges :=
         [0 \<mapsto> ResourceEdge postApprover post3 loadedState 0 (Some user1) (Some user1),
          1 \<mapsto> CollectionEdge userApprovals user1 loadedState 0 [post3] [post3] [post3] [post3]],
       nextRef := 2 \<rparr>"


text \<open>
  The implicit side of an asynchronous to-many field \<open>comments\<close> that has no declared
  inverse: the definition of the implicit edge \<open>post\<close> of a comment.
\<close>

definition commentPost :: UpgradedMeta where
  "commentPost = \<lparr> kind = Implicit, key = ''post'', inverseKey = ''comments'', isAsync = False,
                   isImplicit = True, inverseIsAsync = True, inverseIsImplicit = False \<rparr>"

text \<open>A comment whose only edge is that implicit edge, with no members.\<close>

definition implicitGraph :: Graph where
  "implicitGraph = constructor
     \<lparr> identifiers := [comment1 \<mapsto> [(''post'', Some 0)]],
       edges := [0 \<mapsto> ImplicitEdge commentPost comment1 [] []],
       nextRef := 1 \<rparr>"


section \<open>Unfolding the model on the examples\<close>

lemmas model_defs =
  remove_def unload_def unloadKey_def destroyRelationship_def forAllRelatedIdentifiers_def
  notifyInverseOfDematerialization_def removeDematerializedInverse_def has_def get_def
  removeIdentifierCompletelyFromRelationship_def updEdge_def notifyChange_def bindE_def
  isReleasable_def removeCompletelyFromInverse_def setProperty_def Let_def

lemmas example_defs =
  exampleGraph_def constructor_def exampleDeps_def postAuthor_def postEditor_def userPosts_def
  userWorks_def postApprover_def userApprovals_def approvalGraph_def loadedState_def createState_def post1_def user1_def post2_def
  post3_def comment1_def

section \<open>Properties of the update scheduler\<close>

lemma bindE_Inr: "bindE m f = Inr y \<Longrightarrow> \<exists>x. m = Inr x \<and> f x = Inr y"
  by (cases m) (simp_all add: bindE_def)

lemma forEachE_append:
  "forEachE f (xs @ ys) s = bindE (forEachE f xs s) (forEachE f ys)"
  by (induction xs arbitrary: s) (simp_all add: bindE_def split: sum.splits)

lemma getDefinition_frame:
  assumes "getDefinition d g i p = Inr (m, g')"
  shows "scheduled g' = scheduled g" "willSyncRemote g' = willSyncRemote g"
    "pushedUpdates g' = pushedUpdates g" "transaction g' = transaction g"
    "edges g' = edges g" "identifiers g' = identifiers g" "notified g' = notified g"
    "removing g' = removing g" "willSyncLocal g' = willSyncLocal g"
    "updatedRelationships g' = updatedRelationships g" "nextRef g' = nextRef g"
  using assms
  by (auto simp: getDefinition_def Let_def split: option.splits prod.splits if_splits)

lemma getDefinition_lookup:
  assumes "getDefinition d g i p = Inr (m, g')"
  shows "lookupMeta g' (type i) p = Some m"
  using assms
  by (auto simp: getDefinition_def lookupMeta_def Let_def split: option.splits prod.splits if_splits)

lemma getDefinition_mono:
  assumes "getDefinition d g i p = Inr (m, g')" "lookupMeta g t f = Some m'"
  shows "lookupMeta g' t f = Some m'"
  using assms
  by (auto simp: getDefinition_def lookupMeta_def Let_def split: option.splits prod.splits if_splits)

lemma metaExtends_refl: "metaExtends g g"
  by (simp add: metaExtends_def)

lemma metaExtends_trans: "metaExtends g g' \<Longrightarrow> metaExtends g' g'' \<Longrightarrow> metaExtends g g''"
  by (simp add: metaExtends_def)

lemma category_extends:
  "metaExtends g g' \<Longrightarrow> category g op = Some k \<Longrightarrow> category g' op = Some k"
  by (cases op) (auto simp: metaExtends_def)

lemma lookupMeta_push_simps:
  "lookupMeta (pushDeletion op g) = lookupMeta g"
  "lookupMeta (pushHasMany op g) = lookupMeta g"
  "lookupMeta (pushBelongsTo op g) = lookupMeta g"
  by (simp_all add: lookupMeta_def pushDeletion_def pushHasMany_def pushBelongsTo_def fun_eq_iff)

lemma enqueue_effect:
  assumes "enqueue d op g = Inr g1"
  shows "scheduled g1 = scheduled g \<and> willSyncRemote g1 = willSyncRemote g \<and> metaExtends g g1 \<and>
    deletions (pushedUpdates g1) = deletions (pushedUpdates g) @ (if isDeleteRecord op then [op] else []) \<and>
    hasMany (pushedUpdates g1) =
      hasMany (pushedUpdates g) @ (if category g1 op = Some HasMany then [op] else []) \<and>
    belongsTo (pushedUpdates g1) =
      belongsTo (pushedUpdates g) @ (if category g1 op = Some BelongsTo then [op] else [])"
proof (cases op)
  case (DeleteRecord r)
  with assms show ?thesis
    by (auto simp: pushDeletion_def metaExtends_def lookupMeta_def)
next
  case (ReplaceRelatedRecord r f v)
  with assms show ?thesis
    by (auto simp: pushBelongsTo_def metaExtends_def lookupMeta_def)
next
  case (UpdateRelationship r f v)
  with assms obtain m g' where gd: "getDefinition d g r f = Inr (m, g')"
    and rest: "(case kind m of
         Implicit \<Rightarrow> Inl (AssertionError ''Cannot push a remote update for an implicit relationship'')
       | HasMany \<Rightarrow> Inr (pushHasMany op g')
       | BelongsTo \<Rightarrow> Inr (pushBelongsTo op g')) = Inr g1"
    by (auto dest!: bindE_Inr)
  have ext: "metaExtends g g'" using gd by (auto simp: metaExtends_def dest: getDefinition_mono)
  have lk: "lookupMeta g' (type r) f = Some m" using gd by (rule getDefinition_lookup)
  note fr = getDefinition_frame[OF gd]
  show ?thesis
  proof (cases "kind m")
    case BelongsTo
    with rest have "g1 = pushBelongsTo op g'" by simp
    with BelongsTo UpdateRelationship ext lk fr show ?thesis
      by (simp add: lookupMeta_push_simps metaExtends_def) (simp add: pushBelongsTo_def)
  next
    case HasMany
    with rest have "g1 = pushHasMany op g'" by simp
    with HasMany UpdateRelationship ext lk fr show ?thesis
      by (simp add: lookupMeta_push_simps metaExtends_def) (simp add: pushHasMany_def)
  next
    case Implicit
    with rest show ?thesis by simp
  qed
next
  case (ReplaceRelatedRecords r f v)
  with assms obtain m g' where gd: "getDefinition d g r f = Inr (m, g')"
    and rest: "(case kind m of
         Implicit \<Rightarrow> Inl (AssertionError ''Cannot push a remote update for an implicit relationship'')
       | HasMany \<Rightarrow> Inr (pushHasMany op g')
       | BelongsTo \<Rightarrow> Inr (pushBelongsTo op g')) = Inr g1"
    by (auto dest!: bindE_Inr)
  have ext: "metaExtends g g'" using gd by (auto simp: metaExtends_def dest: getDefinition_mono)
  have lk: "lookupMeta g' (type r) f = Some m" using gd by (rule getDefinition_lookup)
  note fr = getDefinition_frame[OF gd]
  show ?thesis
  proof (cases "kind m")
    case BelongsTo
    with rest have "g1 = pushBelongsTo op g'" by simp
    with BelongsTo ReplaceRelatedRecords ext lk fr show ?thesis
      by (simp add: lookupMeta_push_simps metaExtends_def) (simp add: pushBelongsTo_def)
  next
    case HasMany
    with rest have "g1 = pushHasMany op g'" by simp
    with HasMany ReplaceRelatedRecords ext lk fr show ?thesis
      by (simp add: lookupMeta_push_simps metaExtends_def) (simp add: pushHasMany_def)
  next
    case Implicit
    with rest show ?thesis by simp
  qed
qed

lemma push_effect:
  assumes "push d op g = Inr g1"
  shows "scheduled g1 = (if willSyncRemote g then scheduled g else scheduled g @ [''coalesce'']) \<and>
    willSyncRemote g1 \<and> metaExtends g g1 \<and>
    deletions (pushedUpdates g1) = deletions (pushedUpdates g) @ (if isDeleteRecord op then [op] else []) \<and>
    hasMany (pushedUpdates g1) =
      hasMany (pushedUpdates g) @ (if category g1 op = Some HasMany then [op] else []) \<and>
    belongsTo (pushedUpdates g1) =
      belongsTo (pushedUpdates g) @ (if category g1 op = Some BelongsTo then [op] else [])"
proof -
  from bindE_Inr[OF assms[unfolded push_def]]
  obtain g' where e: "enqueue d op g = Inr g'"
    and r: "(if \<not> willSyncRemote g' then Inr (schedule ''coalesce'' (g'\<lparr> willSyncRemote := True \<rparr>))
             else Inr g') = (Inr g1 :: error + Graph)"
    by blast
  note ef = enqueue_effect[OF e]
  show ?thesis
  proof (cases "willSyncRemote g'")
    case True
    with r have "g1 = g'" by simp
    with ef True show ?thesis by simp
  next
    case False
    with r have g1: "g1 = schedule ''coalesce'' (g'\<lparr> willSyncRemote := True \<rparr>)" by simp
    have lm: "lookupMeta g1 = lookupMeta g'"
      by (simp add: g1 lookupMeta_def schedule_def fun_eq_iff)
    have cat: "category g1 op = category g' op" by (cases op) (simp_all add: lm)
    have me: "metaExtends g g1" using ef by (simp add: metaExtends_def lm)
    show ?thesis using ef False me by (simp add: cat) (simp add: g1 schedule_def)
  qed
qed

lemma enqueue_category:
  assumes "enqueue d op g = Inr g1" "\<not> isDeleteRecord op"
  shows "category g1 op = Some HasMany \<or> category g1 op = Some BelongsTo"
proof -
  from enqueue_effect[OF assms(1)]
  have h: "hasMany (pushedUpdates g1) =
      hasMany (pushedUpdates g) @ (if category g1 op = Some HasMany then [op] else [])"
    and b: "belongsTo (pushedUpdates g1) =
      belongsTo (pushedUpdates g) @ (if category g1 op = Some BelongsTo then [op] else [])"
    by simp_all
  show ?thesis
  proof (cases op)
    case (DeleteRecord r)
    with assms(2) show ?thesis by simp
  next
    case (ReplaceRelatedRecord r f v)
    then show ?thesis by simp
  next
    case (UpdateRelationship r f v)
    with assms(1) obtain m g' where gd: "getDefinition d g r f = Inr (m, g')"
      and k: "kind m \<noteq> Implicit" and g1: "g1 = pushHasMany op g' \<or> g1 = pushBelongsTo op g'"
      by (auto dest!: bindE_Inr split: Kind.splits)
    from getDefinition_lookup[OF gd] g1 have "lookupMeta g1 (type r) f = Some m"
      by (auto simp: lookupMeta_push_simps)
    with k UpdateRelationship show ?thesis by (cases "kind m") simp_all
  next
    case (ReplaceRelatedRecords r f v)
    with assms(1) obtain m g' where gd: "getDefinition d g r f = Inr (m, g')"
      and k: "kind m \<noteq> Implicit" and g1: "g1 = pushHasMany op g' \<or> g1 = pushBelongsTo op g'"
      by (auto dest!: bindE_Inr split: Kind.splits)
    from getDefinition_lookup[OF gd] g1 have "lookupMeta g1 (type r) f = Some m"
      by (auto simp: lookupMeta_push_simps)
    with k ReplaceRelatedRecords show ?thesis by (cases "kind m") simp_all
  qed
qed

lemma push_category:
  assumes "push d op g = Inr g1" "\<not> isDeleteRecord op"
  shows "category g1 op = Some HasMany \<or> category g1 op = Some BelongsTo"
proof -
  from bindE_Inr[OF assms(1)[unfolded push_def]]
  obtain g' where e: "enqueue d op g = Inr g'"
    and r: "(if \<not> willSyncRemote g' then Inr (schedule ''coalesce'' (g'\<lparr> willSyncRemote := True \<rparr>))
             else Inr g') = (Inr g1 :: error + Graph)"
    by blast
  have "lookupMeta g1 = lookupMeta g'"
    using r by (auto simp: lookupMeta_def schedule_def fun_eq_iff split: if_splits)
  then have "category g1 op = category g' op" by (cases op) simp_all
  with enqueue_category[OF e assms(2)] show ?thesis by simp
qed

lemma category_delete: "isDeleteRecord op \<Longrightarrow> category g op = None"
  by (cases op) simp_all

lemma category_stable:
  assumes "push d op g = Inr g'" "metaExtends g' g1"
  shows "category g1 op = Some k \<longleftrightarrow> category g' op = Some k"
proof (cases "isDeleteRecord op")
  case True
  then show ?thesis by (simp add: category_delete)
next
  case False
  from push_category[OF assms(1) False] obtain k' where k': "category g' op = Some k'" by blast
  from category_extends[OF assms(2) k'] k' show ?thesis by simp
qed

lemma pushAll_effect:
  assumes "forEachE (push d) ops g = Inr g1"
  shows "metaExtends g g1 \<and>
    scheduled g1 = (if willSyncRemote g \<or> ops = [] then scheduled g else scheduled g @ [''coalesce'']) \<and>
    (ops \<noteq> [] \<longrightarrow> willSyncRemote g1) \<and>
    deletions (pushedUpdates g1) = deletions (pushedUpdates g) @ filter isDeleteRecord ops \<and>
    hasMany (pushedUpdates g1) =
      hasMany (pushedUpdates g) @ filter (\<lambda>op. category g1 op = Some HasMany) ops \<and>
    belongsTo (pushedUpdates g1) =
      belongsTo (pushedUpdates g) @ filter (\<lambda>op. category g1 op = Some BelongsTo) ops"
  using assms
proof (induction ops arbitrary: g)
  case Nil
  then show ?case by (simp add: metaExtends_refl)
next
  case (Cons op ops)
  from Cons.prems obtain g' where p: "push d op g = Inr g'" and r: "forEachE (push d) ops g' = Inr g1"
    by (auto split: sum.splits)
  note pe = push_effect[OF p]
  note ih = Cons.IH[OF r]
  from ih have ext: "metaExtends g' g1" by simp
  have st: "\<And>k. (category g1 op = Some k) = (category g' op = Some k)"
    by (rule category_stable[OF p ext])
  have m: "metaExtends g g1" using pe ext by (blast intro: metaExtends_trans)
  have w: "willSyncRemote g1"
  proof (cases ops)
    case Nil
    with r pe show ?thesis by simp
  next
    case (Cons a list)
    with ih show ?thesis by simp
  qed
  have s: "scheduled g1 = (if willSyncRemote g then scheduled g else scheduled g @ [''coalesce''])"
    using ih pe by simp
  show ?case using m w s ih pe by (simp add: st)
qed

lemma flushRemoteQueue_order:
  assumes "willSyncRemote g"
  shows "flushRemoteQueue d g =
    bindE (forEachE (\<lambda>op. update d (RemoteOp op) True)
             (deletions (pushedUpdates g) @ hasMany (pushedUpdates g) @ belongsTo (pushedUpdates g))
             (g\<lparr> transaction := Some [], willSyncRemote := False, pushedUpdates := emptyQueues \<rparr>))
          (\<lambda>g'. Inr (finalize g'))"
  using assms
  by (simp add: flushRemoteQueue_def Let_def forEachE_append emptyQueues_def bindE_def
           split: sum.splits)

lemma examplePushes_run:
  "\<exists>g1. forEachE (push exampleDeps) examplePushes constructor = Inr g1 \<and>
     lookupMeta g1 ''user'' ''posts'' = Some userPosts"
  by (simp add: examplePushes_def push_def bindE_def getDefinition_def exampleDeps_def
        exampleSchema_def constructor_def pushBelongsTo_def pushHasMany_def pushDeletion_def
        schedule_def post1_def user1_def Let_def lookupMeta_def userPosts_def postAuthor_def)

text \<open>
  Claim C1. Let the operations \<open>ops\<close> be pushed, in any order, onto empty queues. The
  flush that follows starts from the graph with the three queues cleared and an empty
  transaction, and applies with \<open>update\<close> in remote mode first the \<open>deleteRecord\<close>
  operations, then the operations queued as to-many updates, then those queued as to-one
  updates, each group in push order; it ends with \<open>_finalize\<close>.
\<close>

theorem flush_applies_deletions_then_hasMany_then_belongsTo:
  assumes "forEachE (push d) ops g = Inr g1" and "ops \<noteq> []"
    and "pushedUpdates g = emptyQueues"
  shows "flushRemoteQueue d g1 =
    bindE (forEachE (\<lambda>op. update d (RemoteOp op) True)
             (filter isDeleteRecord ops @
              filter (\<lambda>op. category g1 op = Some HasMany) ops @
              filter (\<lambda>op. category g1 op = Some BelongsTo) ops)
             (g1\<lparr> transaction := Some [], willSyncRemote := False, pushedUpdates := emptyQueues \<rparr>))
          (\<lambda>g'. Inr (finalize g'))"
proof -
  note pe = pushAll_effect[OF assms(1)]
  from pe assms(2) have w: "willSyncRemote g1" by simp
  from pe assms(3) have q: "deletions (pushedUpdates g1) = filter isDeleteRecord ops"
    "hasMany (pushedUpdates g1) = filter (\<lambda>op. category g1 op = Some HasMany) ops"
    "belongsTo (pushedUpdates g1) = filter (\<lambda>op. category g1 op = Some BelongsTo) ops"
    by (simp_all add: emptyQueues_def)
  show ?thesis by (simp only: flushRemoteQueue_order[OF w] q)
qed

theorem flush_applies_deletions_then_hasMany_then_belongsTo_witness:
  "\<exists>g1. forEachE (push exampleDeps)
           [ReplaceRelatedRecord post1 ''author'' (Some user1),
            UpdateRelationship user1 ''posts'' (CollectionPayload [post1]),
            DeleteRecord post1] constructor = Inr g1 \<and>
     flushRemoteQueue exampleDeps g1 =
       bindE (forEachE (\<lambda>op. update exampleDeps (RemoteOp op) True)
                [DeleteRecord post1,
                 UpdateRelationship user1 ''posts'' (CollectionPayload [post1]),
                 ReplaceRelatedRecord post1 ''author'' (Some user1)]
                (g1\<lparr> transaction := Some [], willSyncRemote := False, pushedUpdates := emptyQueues \<rparr>))
             (\<lambda>g'. Inr (finalize g'))"
proof -
  from examplePushes_run obtain g1 where
    r: "forEachE (push exampleDeps) examplePushes constructor = Inr g1"
    and m: "lookupMeta g1 ''user'' ''posts'' = Some userPosts" by blast
  have q: "pushedUpdates constructor = emptyQueues"
    by (simp add: constructor_def emptyQueues_def)
  have n: "examplePushes \<noteq> []" by (simp add: examplePushes_def)
  have "flushRemoteQueue exampleDeps g1 =
    bindE (forEachE (\<lambda>op. update exampleDeps (RemoteOp op) True)
             (filter isDeleteRecord examplePushes @
              filter (\<lambda>op. category g1 op = Some HasMany) examplePushes @
              filter (\<lambda>op. category g1 op = Some BelongsTo) examplePushes)
             (g1\<lparr> transaction := Some [], willSyncRemote := False, pushedUpdates := emptyQueues \<rparr>))
          (\<lambda>g'. Inr (finalize g'))"
    using flush_applies_deletions_then_hasMany_then_belongsTo[OF r n q] .
  then show ?thesis using r m
    by (auto simp: examplePushes_def user1_def userPosts_def)
qed

lemma three_filters:
  assumes "\<And>x. x \<in> set xs \<Longrightarrow>
     (P x \<and> \<not> Q x \<and> \<not> R x) \<or> (\<not> P x \<and> Q x \<and> \<not> R x) \<or> (\<not> P x \<and> \<not> Q x \<and> R x)"
  shows "length (filter P xs) + length (filter Q xs) + length (filter R xs) = length xs"
  using assms
proof (induction xs)
  case Nil
  then show ?case by simp
next
  case (Cons a xs)
  from Cons.prems[of a] have a: "(P a \<and> \<not> Q a \<and> \<not> R a) \<or> (\<not> P a \<and> Q a \<and> \<not> R a) \<or> (\<not> P a \<and> \<not> Q a \<and> R a)"
    by simp
  have "length (filter P xs) + length (filter Q xs) + length (filter R xs) = length xs"
    by (rule Cons.IH) (simp add: Cons.prems)
  with a show ?case by auto
qed

lemma pushAll_category:
  "forEachE (push d) ops g = Inr g1 \<Longrightarrow> op \<in> set ops \<Longrightarrow> \<not> isDeleteRecord op \<Longrightarrow>
   category g1 op = Some HasMany \<or> category g1 op = Some BelongsTo"
proof (induction ops arbitrary: g)
  case Nil
  then show ?case by simp
next
  case (Cons a ops)
  from Cons.prems(1) obtain g' where p: "push d a g = Inr g'" and r: "forEachE (push d) ops g' = Inr g1"
    by (auto split: sum.splits)
  show ?case
  proof (cases "op \<in> set ops")
    case True
    from Cons.IH[OF r True Cons.prems(3)] show ?thesis .
  next
    case False
    with Cons.prems(2) have "op = a" by simp
    with push_category[OF p] Cons.prems(3) obtain k where k: "category g' op = Some k"
      and kk: "k = HasMany \<or> k = BelongsTo" by auto
    from pushAll_effect[OF r] have "metaExtends g' g1" by simp
    from category_extends[OF this k] kk show ?thesis by auto
  qed
qed

lemma pushAll_queued:
  assumes "forEachE (push d) ops g = Inr g1"
  shows "queued g1 = queued g + length ops"
proof -
  have part: "length (filter isDeleteRecord ops) +
        length (filter (\<lambda>op. category g1 op = Some HasMany) ops) +
        length (filter (\<lambda>op. category g1 op = Some BelongsTo) ops) = length ops"
  proof (rule three_filters)
    fix x assume x: "x \<in> set ops"
    show "(isDeleteRecord x \<and> \<not> category g1 x = Some HasMany \<and> \<not> category g1 x = Some BelongsTo) \<or>
          (\<not> isDeleteRecord x \<and> category g1 x = Some HasMany \<and> \<not> category g1 x = Some BelongsTo) \<or>
          (\<not> isDeleteRecord x \<and> \<not> category g1 x = Some HasMany \<and> category g1 x = Some BelongsTo)"
    proof (cases "isDeleteRecord x")
      case True
      then show ?thesis by (simp add: category_delete)
    next
      case False
      from pushAll_category[OF assms x False] False show ?thesis by auto
    qed
  qed
  from pushAll_effect[OF assms] part show ?thesis by (simp add: queued_def)
qed

text \<open>
  Claim C6. From a graph with no remote flush pending, any non-empty run of pushes leaves
  exactly one new request on the ''coalesce'' queue and the flag \<open>_willSyncRemote\<close> set:
  the first push registers the flush, every later one only queues its operation. Each
  push adds one operation to the queues.
\<close>

theorem pushes_schedule_one_flush:
  assumes "\<not> willSyncRemote g" and "forEachE (push d) (op # ops) g = Inr g1"
  shows "scheduled g1 = scheduled g @ [''coalesce''] \<and> willSyncRemote g1 \<and>
         queued g1 = queued g + length (op # ops)"
  using pushAll_effect[OF assms(2)] pushAll_queued[OF assms(2)] assms(1) by simp

theorem pushes_schedule_one_flush_witness:
  "\<not> willSyncRemote constructor \<and>
   (\<exists>g1. forEachE (push exampleDeps) examplePushes constructor = Inr g1 \<and>
      scheduled g1 = [''coalesce''] \<and> willSyncRemote g1 \<and> queued g1 = 3)"
proof -
  have w: "\<not> willSyncRemote constructor" by (simp add: constructor_def)
  from examplePushes_run obtain g1 where
    r: "forEachE (push exampleDeps) examplePushes constructor = Inr g1" by blast
  have "scheduled g1 = scheduled constructor @ [''coalesce''] \<and> willSyncRemote g1 \<and>
        queued g1 = queued constructor + length examplePushes"
    using pushes_schedule_one_flush[OF w r[unfolded examplePushes_def]]
    by (simp add: examplePushes_def)
  then show ?thesis using w r by (auto simp: constructor_def queued_def examplePushes_def)
qed

text \<open>
  Claim C10. \<open>_flushRemoteQueue\<close> called while \<open>_willSyncRemote\<close> is false, and
  \<open>_flushLocalQueue\<close> called while \<open>_willSyncLocal\<close> is false, return at once and leave
  the whole graph as it was.
\<close>

theorem spurious_flush_changes_nothing:
  "(\<not> willSyncRemote g \<longrightarrow> flushRemoteQueue d g = Inr g) \<and>
   (\<not> willSyncLocal g \<longrightarrow> flushLocalQueue d g = Inr g)"
  by (simp add: flushRemoteQueue_def flushLocalQueue_def)

theorem spurious_flush_changes_nothing_witness:
  "\<not> willSyncRemote constructor \<and> flushRemoteQueue exampleDeps constructor = Inr constructor \<and>
   \<not> willSyncLocal constructor \<and> flushLocalQueue exampleDeps constructor = Inr constructor"
  using spurious_flush_changes_nothing[of constructor exampleDeps]
  by (simp add: constructor_def)

section \<open>Properties of the edge definition resolver\<close>

lemma cacheInv_cong:
  "cacheInv g \<Longrightarrow> metaCache g' = metaCache g \<and> upgradeCalls g' = upgradeCalls g \<Longrightarrow> cacheInv g'"
  by (simp add: cacheInv_def lookupMeta_def)

lemma getDefinition_cached:
  assumes "getDefinition d g i p = Inr (m, g1)" "type i' = type i"
  shows "getDefinition d' g1 i' p = Inr (m, g1)"
proof -
  have "lookupMeta g1 (type i') p = Some m"
    using getDefinition_lookup[OF assms(1)] assms(2) by simp
  then show ?thesis
    by (auto simp: getDefinition_def lookupMeta_def Let_def split: option.splits)
qed

lemma getDefinition_cacheInv:
  assumes "getDefinition d g i p = Inr (m, g')" "cacheInv g"
  shows "cacheInv g'"
proof (cases "lookupMeta g (type i) p")
  case (Some m')
  then have "g' = g" using assms(1)
    by (auto simp: getDefinition_def lookupMeta_def Let_def split: option.splits)
  with assms(2) show ?thesis by simp
next
  case None
  obtain info cache where u: "upgradeDefinition d g i p = (info, cache)" by (cases "upgradeDefinition d g i p")
  from assms(1) None u have calls: "upgradeCalls g' = upgradeCalls g @ [(type i, p)]"
    and lk: "\<And>t f. lookupMeta g' t f = (if t = type i \<and> f = p then Some m else lookupMeta g t f)"
    by (auto simp: getDefinition_def lookupMeta_def Let_def split: option.splits if_splits)
  from assms(2) None have c0: "count_list (upgradeCalls g) (type i, p) = 0"
    by (simp add: cacheInv_def)
  show ?thesis
    unfolding cacheInv_def
  proof (intro allI)
    fix t f
    show "(lookupMeta g' t f = None \<longrightarrow> count_list (upgradeCalls g') (t, f) = 0) \<and>
          count_list (upgradeCalls g') (t, f) \<le> 1"
      using assms(2) c0 by (auto simp: calls lk cacheInv_def)
  qed
qed

lemma alloc_meta:
  "alloc e g = (r, g') \<Longrightarrow> metaCache g' = metaCache g \<and> upgradeCalls g' = upgradeCalls g"
  by (auto simp: alloc_def)

lemma setProperty_meta:
  "metaCache (setProperty i p v g) = metaCache g \<and> upgradeCalls (setProperty i p v g) = upgradeCalls g"
  by (simp add: setProperty_def split: option.splits)

lemma get_existing:
  assumes "map_of (case identifiers (getBase g i) i of None \<Rightarrow> [] | Some rs \<Rightarrow> rs) p = Some (Some r0)"
    and "p \<noteq> []"
  shows "get d g i p = Inr (r0, getBase g i)"
  using assms unfolding get_def Let_def getBase_def by simp

lemma get_fresh:
  assumes "\<not> (\<exists>r0. map_of (case identifiers (getBase g i) i of None \<Rightarrow> [] | Some rs \<Rightarrow> rs) p = Some (Some r0))"
    and "p \<noteq> []"
  shows "get d g i p =
    bindE (getDefinition d (getBase g i) i p) (\<lambda>(m, g2).
      if kind m \<noteq> BelongsTo \<and> kind m \<noteq> HasMany \<and> \<not> (kind m = Implicit \<and> isImplicit m)
      then Inl (AssertionError ''Expected kind to be implicit'')
      else Inr (nextRef g2, setProperty i p (Some (nextRef g2)) (snd (alloc (newEdge m i) g2))))"
proof -
  let ?look = "map_of (case identifiers (getBase g i) i of None \<Rightarrow> [] | Some rs \<Rightarrow> rs) p"
  have k: "\<And>m g2. (if kind m = BelongsTo then
                  (case alloc (createResourceEdge m i) g2 of
                     (r, g3) \<Rightarrow> Inr (r, setProperty i p (Some r) g3))
                else if kind m = HasMany then
                  (case alloc (createCollectionEdge m i) g2 of
                     (r, g3) \<Rightarrow> Inr (r, setProperty i p (Some r) g3))
                else if \<not> (kind m = Implicit \<and> isImplicit m)
                  then Inl (AssertionError ''Expected kind to be implicit'')
                else
                  (case alloc (createImplicitEdge m i) g2 of
                     (r, g3) \<Rightarrow> Inr (r, setProperty i p (Some r) g3))) =
      (if kind m \<noteq> BelongsTo \<and> kind m \<noteq> HasMany \<and> \<not> (kind m = Implicit \<and> isImplicit m)
      then Inl (AssertionError ''Expected kind to be implicit'')
      else Inr (nextRef g2, setProperty i p (Some (nextRef g2)) (snd (alloc (newEdge m i) g2))))"
    by (simp add: alloc_def newEdge_def)
  show ?thesis
  proof (cases ?look)
    case None
    then show ?thesis
      using assms(2) unfolding get_def Let_def getBase_def[symmetric] by (simp add: k)
  next
    case (Some v)
    with assms(1) have "v = None" by (cases v) simp_all
    with Some show ?thesis
      using assms(2) unfolding get_def Let_def getBase_def[symmetric] by (simp add: k)
  qed
qed

lemma getBase_meta:
  "metaCache (getBase g i) = metaCache g \<and> upgradeCalls (getBase g i) = upgradeCalls g"
  by (simp add: getBase_def split: option.splits)

lemma get_cacheInv:
  assumes "get d g i p = Inr (r, g')" "cacheInv g"
  shows "cacheInv g'"
proof -
  let ?look = "map_of (case identifiers (getBase g i) i of None \<Rightarrow> [] | Some rs \<Rightarrow> rs) p"
  have c1: "cacheInv (getBase g i)" using assms(2) getBase_meta by (rule cacheInv_cong)
  have pn: "p \<noteq> []" using assms(1) by (cases "p = []") (simp_all add: get_def)
  show ?thesis
  proof (cases "\<exists>r0. ?look = Some (Some r0)")
    case True
    then obtain r0 where "?look = Some (Some r0)" by blast
    from get_existing[OF this pn, of d] assms(1) have "g' = getBase g i" by simp
    with c1 show ?thesis by simp
  next
    case False
    from bindE_Inr[OF assms(1)[unfolded get_fresh[OF False pn]]] obtain x where
      x: "getDefinition d (getBase g i) i p = Inr x"
      and y: "(case x of (m, g2) \<Rightarrow>
          if kind m \<noteq> BelongsTo \<and> kind m \<noteq> HasMany \<and> \<not> (kind m = Implicit \<and> isImplicit m)
          then Inl (AssertionError ''Expected kind to be implicit'')
          else Inr (nextRef g2, setProperty i p (Some (nextRef g2)) (snd (alloc (newEdge m i) g2)))) =
         Inr (r, g')"
      by blast
    obtain m g2 where xm: "x = (m, g2)" by (cases x)
    from x xm have gd: "getDefinition d (getBase g i) i p = Inr (m, g2)" by simp
    from y xm have g': "g' = setProperty i p (Some (nextRef g2)) (snd (alloc (newEdge m i) g2))"
      by (auto split: if_splits)
    have "cacheInv g2" using getDefinition_cacheInv[OF gd c1] .
    then have "cacheInv (snd (alloc (newEdge m i) g2))"
      by (simp add: cacheInv_def lookupMeta_def alloc_def)
    then show ?thesis
      unfolding g' using setProperty_meta by (rule cacheInv_cong)
  qed
qed

lemma push_cacheInv:
  assumes "push d op g = Inr g'" "cacheInv g"
  shows "cacheInv g'"
proof -
  from bindE_Inr[OF assms(1)[unfolded push_def]]
  obtain g1 where e: "enqueue d op g = Inr g1"
    and r: "(if \<not> willSyncRemote g1 then Inr (schedule ''coalesce'' (g1\<lparr> willSyncRemote := True \<rparr>))
             else Inr g1) = (Inr g' :: error + Graph)"
    by blast
  have q: "\<And>h op'. cacheInv (pushDeletion op' h) = cacheInv h"
    "\<And>h op'. cacheInv (pushHasMany op' h) = cacheInv h"
    "\<And>h op'. cacheInv (pushBelongsTo op' h) = cacheInv h"
    by (simp_all add: cacheInv_def lookupMeta_push_simps)
       (simp_all add: pushDeletion_def pushHasMany_def pushBelongsTo_def)
  have gd: "\<And>r f m h. getDefinition d g r f = Inr (m, h) \<Longrightarrow> cacheInv h"
    by (rule getDefinition_cacheInv[OF _ assms(2)])
  have c1: "cacheInv g1"
  proof (cases op)
    case (DeleteRecord r)
    with e assms(2) show ?thesis by (auto simp: q)
  next
    case (ReplaceRelatedRecord r f v)
    with e assms(2) show ?thesis by (auto simp: q)
  next
    case (UpdateRelationship r f v)
    with e obtain m h where "getDefinition d g r f = Inr (m, h)"
      and "g1 = pushHasMany op h \<or> g1 = pushBelongsTo op h"
      by (auto dest!: bindE_Inr split: Kind.splits)
    with gd show ?thesis by (auto simp: q)
  next
    case (ReplaceRelatedRecords r f v)
    with e obtain m h where "getDefinition d g r f = Inr (m, h)"
      and "g1 = pushHasMany op h \<or> g1 = pushBelongsTo op h"
      by (auto dest!: bindE_Inr split: Kind.splits)
    with gd show ?thesis by (auto simp: q)
  qed
  from r show ?thesis
    using c1 by (auto simp: cacheInv_def lookupMeta_def schedule_def split: if_splits)
qed

lemma runCall_cacheInv:
  assumes "runCall d c g = Inr g'" "cacheInv g"
  shows "cacheInv g'"
proof (cases c)
  case (CallGetDefinition i p)
  with assms(1) obtain m where "getDefinition d g i p = Inr (m, g')"
    by (auto dest!: bindE_Inr)
  from getDefinition_cacheInv[OF this assms(2)] show ?thesis .
next
  case (CallGet i p)
  with assms(1) obtain r where "get d g i p = Inr (r, g')"
    by (auto dest!: bindE_Inr)
  from get_cacheInv[OF this assms(2)] show ?thesis .
next
  case (CallPush op)
  with assms(1) have "push d op g = Inr g'" by simp
  from push_cacheInv[OF this assms(2)] show ?thesis .
qed

lemma runCalls_cacheInv:
  "forEachE (runCall d) cs g = Inr g' \<Longrightarrow> cacheInv g \<Longrightarrow> cacheInv g'"
proof (induction cs arbitrary: g)
  case Nil
  then show ?case by simp
next
  case (Cons c cs)
  from Cons.prems(1) obtain h where h: "runCall d c g = Inr h" and r: "forEachE (runCall d) cs h = Inr g'"
    by (auto split: sum.splits)
  from runCall_cacheInv[OF h Cons.prems(2)] have "cacheInv h" .
  from Cons.IH[OF r this] show ?case .
qed

lemma cacheInv_constructor: "cacheInv constructor"
  by (simp add: cacheInv_def constructor_def)


lemma exampleCalls_run:
  "\<exists>m g1. getDefinition exampleDeps constructor post1 ''author'' = Inr (m, g1)"
  "\<exists>g2. forEachE (runCall exampleDeps)
          [CallGetDefinition post1 ''author'', CallGet post2 ''author'',
           CallPush (UpdateRelationship post1 ''author'' (SinglePayload None))] constructor = Inr g2"
  by (simp_all add: push_def get_def alloc_def setProperty_def bindE_def getDefinition_def
        exampleDeps_def exampleSchema_def constructor_def pushBelongsTo_def schedule_def
        post1_def post2_def Let_def postAuthor_def createResourceEdge_def)

text \<open>
  Claim C3. Once \<open>getDefinition\<close> has returned a definition for a (type, field) pair, a
  second call for the pair, whatever the schema provider would answer now, returns the same
  definition and leaves the graph as it is, so the provider is not consulted again. Over
  any run of \<open>getDefinition\<close>, \<open>get\<close> and \<open>push\<close> calls on a new graph,
  \<open>upgradeDefinition\<close> is called at most once for each pair.
\<close>

theorem getDefinition_cached_and_resolved_once:
  "(getDefinition d g i p = Inr (m, g1) \<and> type i' = type i \<longrightarrow>
      getDefinition d' g1 i' p = Inr (m, g1)) \<and>
   (forEachE (runCall d) cs constructor = Inr g2 \<longrightarrow> count_list (upgradeCalls g2) (t, f) \<le> 1)"
proof (intro conjI impI)
  assume "getDefinition d g i p = Inr (m, g1) \<and> type i' = type i"
  then show "getDefinition d' g1 i' p = Inr (m, g1)" by (blast intro: getDefinition_cached)
next
  assume "forEachE (runCall d) cs constructor = Inr g2"
  from runCalls_cacheInv[OF this cacheInv_constructor]
  show "count_list (upgradeCalls g2) (t, f) \<le> 1" by (simp add: cacheInv_def)
qed

theorem getDefinition_cached_and_resolved_once_witness:
  "\<exists>m g1 g2. getDefinition exampleDeps constructor post1 ''author'' = Inr (m, g1) \<and>
     type post2 = type post1 \<and>
     getDefinition (exampleDeps\<lparr> upgradeDefinition := (\<lambda>g i p. (None, definitionCache g)) \<rparr>)
        g1 post2 ''author'' = Inr (m, g1) \<and>
     forEachE (runCall exampleDeps)
          [CallGetDefinition post1 ''author'', CallGet post2 ''author'',
           CallPush (UpdateRelationship post1 ''author'' (SinglePayload None))] constructor = Inr g2 \<and>
     count_list (upgradeCalls g2) (''post'', ''author'') \<le> 1"
proof -
  from exampleCalls_run obtain m g1 g2 where
    a: "getDefinition exampleDeps constructor post1 ''author'' = Inr (m, g1)"
    and b: "forEachE (runCall exampleDeps)
          [CallGetDefinition post1 ''author'', CallGet post2 ''author'',
           CallPush (UpdateRelationship post1 ''author'' (SinglePayload None))] constructor = Inr g2"
    by blast
  have t: "type post2 = type post1" by (simp add: post1_def post2_def)
  from getDefinition_cached_and_resolved_once
         [of exampleDeps constructor post1 "''author''" m g1 post2
             "exampleDeps\<lparr> upgradeDefinition := (\<lambda>g i p. (None, definitionCache g)) \<rparr>"
             _ g2 "''post''" "''author''"]
       a b t
  show ?thesis by blast
qed

section \<open>Properties of the dematerialization engine\<close>

lemma isReleasableLoop_iff:
  "isReleasableLoop d g x rs \<longleftrightarrow>
     \<not> (\<exists>k r e. (k, Some r) \<in> set rs \<and> edges g r = Some e \<and>
            inverseIsAsync (edge_definition e) \<and> \<not> isNew d x)"
proof (induction d g x rs rule: isReleasableLoop.induct)
  case (1 d g y)
  show ?case by simp
next
  case (2 d g y k rest)
  then show ?case by simp
next
  case (3 d g y k r rest)
  show ?case
  proof (cases "edges g r")
    case None
    with 3 show ?thesis by auto
  next
    case (Some e)
    show ?thesis
    proof (cases "inverseIsAsync (edge_definition e) \<and> \<not> isNew d y")
      case True
      with Some show ?thesis by auto
    next
      case False
      with Some 3 show ?thesis by auto
    qed
  qed
qed

lemma exampleGraph_releasable:
  "\<not> isReleasable exampleDeps exampleGraph post2"
  "isReleasable (exampleDeps\<lparr> isNew := (\<lambda>i. True) \<rparr>) exampleGraph post2"
  "isReleasable exampleDeps exampleGraph comment1"
  "isReleasable exampleDeps exampleGraph (Identifier ''user'' ''user:2'')"
  by (simp_all add: isReleasable_def example_defs)

text \<open>
  Claim C5, as stated, fails in its last case: \<open>comment1\<close> has one implicit edge, with no
  members, whose definition has an asynchronous inverse; \<open>comment1\<close> is not new, and
  \<open>isReleasable\<close> answers false.
\<close>

theorem isReleasable_implicit_nowhere_counterexample:
  "identifiers implicitGraph comment1 = Some [(''post'', Some 0)] \<and>
   edges implicitGraph 0 = Some (ImplicitEdge commentPost comment1 [] []) \<and>
   relatedIdentifiers (ImplicitEdge commentPost comment1 [] []) = [] \<and>
   \<not> isNew exampleDeps comment1 \<and>
   \<not> isReleasable exampleDeps implicitGraph comment1"
  by (simp add: isReleasable_def implicitGraph_def commentPost_def exampleDeps_def)

text \<open>
  Claim C5, amended. \<open>isReleasable\<close> answers false exactly when the node has a materialized
  edge, of any kind and with or without members, whose definition has an asynchronous
  inverse and the identifier is not new. So an identifier with no node, or whose keys all
  hold \<open>undefined\<close> (implicit edges that were unloaded), is releasable, and so is every new
  identifier.
\<close>

theorem isReleasable_iff:
  "isReleasable d g x \<longleftrightarrow>
     \<not> (\<exists>rs k r e. identifiers g x = Some rs \<and> (k, Some r) \<in> set rs \<and> edges g r = Some e \<and>
            inverseIsAsync (edge_definition e) \<and> \<not> isNew d x)"
  by (cases "identifiers g x") (simp_all add: isReleasable_def isReleasableLoop_iff)

theorem isReleasable_iff_witness:
  "\<not> isReleasable exampleDeps exampleGraph post2 \<and>
   (\<exists>rs k r e. identifiers exampleGraph post2 = Some rs \<and> (k, Some r) \<in> set rs \<and>
      edges exampleGraph r = Some e \<and> inverseIsAsync (edge_definition e) \<and>
      \<not> isNew exampleDeps post2) \<and>
   isReleasable (exampleDeps\<lparr> isNew := (\<lambda>i. True) \<rparr>) exampleGraph post2 \<and>
   isReleasable exampleDeps exampleGraph comment1 \<and>
   isReleasable exampleDeps exampleGraph (Identifier ''user'' ''user:2'')"
  using isReleasable_iff[of exampleDeps exampleGraph post2] exampleGraph_releasable
  by blast

text \<open>
  Claim C8, as stated, fails: with a removal of \<open>user1\<close> in progress, \<open>remove user1\<close>
  raises the assertion, where the claim has it unload and delete the node.
\<close>

theorem remove_same_identifier_counterexample:
  "remove exampleDeps (exampleGraph\<lparr> removing := Some user1 \<rparr>) user1 =
     Inl (AssertionError ''Cannot remove while still removing'') \<and>
   (\<exists>g'. remove_as_claimed exampleDeps (exampleGraph\<lparr> removing := Some user1 \<rparr>) user1 = Inr g')"
  by (simp add: remove_as_claimed_def model_defs example_defs)

text \<open>
  Claim C8, amended. \<open>remove\<close> raises the assertion whenever any removal is in progress,
  of the same identifier too. Otherwise it unloads the node with \<open>_removing\<close> set, an error
  of \<open>unload\<close> being the error of \<open>remove\<close>, then deletes the node from the registry and
  resets \<open>_removing\<close> to null.
\<close>

theorem remove_asserts_no_removal_in_progress:
  "(removing g \<noteq> None \<longrightarrow>
      remove d g x = Inl (AssertionError ''Cannot remove while still removing'')) \<and>
   (removing g = None \<longrightarrow>
      (\<forall>e. unload d (g\<lparr> removing := Some x \<rparr>) x False = Inl e \<longrightarrow> remove d g x = Inl e) \<and>
      (\<forall>g1. unload d (g\<lparr> removing := Some x \<rparr>) x False = Inr g1 \<longrightarrow>
         remove d g x = Inr (g1\<lparr> identifiers := (identifiers g1)(x := None), removing := None \<rparr>)))"
  by (simp add: remove_def bindE_def)

theorem remove_asserts_no_removal_in_progress_witness:
  "removing (exampleGraph\<lparr> removing := Some post1 \<rparr>) \<noteq> None \<and>
   remove exampleDeps (exampleGraph\<lparr> removing := Some post1 \<rparr>) user1 =
     Inl (AssertionError ''Cannot remove while still removing'') \<and>
   removing exampleGraph = None \<and>
   (\<exists>g1. unload exampleDeps (exampleGraph\<lparr> removing := Some user1 \<rparr>) user1 False = Inr g1 \<and>
      remove exampleDeps exampleGraph user1 =
        Inr (g1\<lparr> identifiers := (identifiers g1)(user1 := None), removing := None \<rparr>))"
proof -
  have a: "removing (exampleGraph\<lparr> removing := Some post1 \<rparr>) \<noteq> None" by simp
  have b: "removing exampleGraph = None" by (simp add: exampleGraph_def constructor_def)
  have c: "\<exists>g1. unload exampleDeps (exampleGraph\<lparr> removing := Some user1 \<rparr>) user1 False = Inr g1"
    by (simp add: model_defs example_defs)
  from a b c
    remove_asserts_no_removal_in_progress[of "exampleGraph\<lparr> removing := Some post1 \<rparr>" exampleDeps user1]
    remove_asserts_no_removal_in_progress[of exampleGraph exampleDeps user1]
  show ?thesis by blast
qed

section \<open>Properties of the transaction\<close>




lemma refCount_preserved [simp]:
  "refCount (removeIdentifierCompletely v e) = refCount e"
  "refCount (clearRelationship e) = refCount e"
  "refCount (set_localState l e) = refCount e"
  "refCount (clearMembers e) = refCount e"
  "refCount (map_state f e) = refCount e"
  "refCount (removeDematerializedResource d e) = refCount e"
  by (cases e; simp add: Let_def)+












lemma fold_updEdge_frame:
  "transaction (fold (\<lambda>v. updEdge v f) t g) = transaction g \<and>
   dom (edges (fold (\<lambda>v. updEdge v f) t g)) = dom (edges g)"
  by (induction t arbitrary: g) (auto simp: updEdge_def split: option.splits)




lemma outsideFlush_txInv: "outsideFlush g \<Longrightarrow> txInv g"
  by (auto simp: outsideFlush_def txInv_def)








section \<open>Properties of unloading and removal\<close>

lemma removeDematerializedInverse_notified:
  assumes "edges g rel = Some e"
  shows "notified (removeDematerializedInverse d g rel x s) =
           notified g @ (if s then [] else [(edge_identifier e, key (edge_definition e))])"
  using assms
  by (simp add: removeDematerializedInverse_def notifyChange_def updEdge_def Let_def
        removeIdentifierCompletelyFromRelationship_def)

lemma removeDematerializedInverse_edge:
  assumes "edges g rel = Some e"
  shows "edges (removeDematerializedInverse d g rel x s) rel =
     Some (if isBelongsTo e then removeDematerializedResource d e
           else if \<not> isAsync (edge_definition e) \<or> isNew d x then removeIdentifierCompletely x e
           else map_state (\<lambda>s. s\<lparr> hasDematerializedInverse := True \<rparr>) e)"
  using assms
  by (simp add: removeDematerializedInverse_def notifyChange_def updEdge_def Let_def
        removeIdentifierCompletelyFromRelationship_def)






lemma sameEdge_refl: "sameEdge e e"
  by (simp add: sameEdge_def)

lemma sameEdge_trans: "sameEdge a b \<Longrightarrow> sameEdge b c \<Longrightarrow> sameEdge a c"
  by (simp add: sameEdge_def)

lemma sameEdge_ops:
  "sameEdge e (removeIdentifierCompletely v e)"
  "sameEdge e (clearRelationship e)"
  "sameEdge e (map_state f e)"
  "sameEdge e (removeDematerializedResource d e)"
  by (cases e; simp add: sameEdge_def Let_def)+

lemma keepsEdges_refl: "keepsEdges g g"
  by (auto simp: keepsEdges_def sameEdge_refl)

lemma keepsEdges_trans: "keepsEdges a b \<Longrightarrow> keepsEdges b c \<Longrightarrow> keepsEdges a c"
  unfolding keepsEdges_def by (meson sameEdge_trans)

lemma keepsEdges_removeDematerializedInverse:
  "keepsEdges g (removeDematerializedInverse d g rel x s)"
proof (cases "edges g rel")
  case None
  then show ?thesis by (simp add: removeDematerializedInverse_def keepsEdges_refl)
next
  case (Some e)
  have o: "\<And>r. r \<noteq> rel \<Longrightarrow> edges (removeDematerializedInverse d g rel x s) r = edges g r"
    using Some
    by (simp add: removeDematerializedInverse_def notifyChange_def updEdge_def Let_def
          removeIdentifierCompletelyFromRelationship_def)
  show ?thesis
    unfolding keepsEdges_def
  proof (intro allI impI)
    fix r e0 assume e0: "edges g r = Some e0"
    show "\<exists>e'. edges (removeDematerializedInverse d g rel x s) r = Some e' \<and> sameEdge e0 e'"
    proof (cases "r = rel")
      case True
      with e0 Some have "e0 = e" by simp
      then show ?thesis
        using True removeDematerializedInverse_edge[OF Some, of d x s]
        by (auto simp: sameEdge_ops)
    next
      case False
      with o e0 show ?thesis by (auto simp: sameEdge_refl)
    qed
  qed
qed

lemma get_has:
  assumes "has g i k" "get d g i k = Inr (r, g')"
  shows "g' = g"
proof -
  from assms(1) obtain rs r0 where n: "identifiers g i = Some rs" and m: "map_of rs k = Some (Some r0)"
    by (auto simp: has_def split: option.splits)
  have pn: "k \<noteq> []" using assms(2) by (cases "k = []") (simp_all add: get_def)
  have b: "getBase g i = g" using n by (simp add: getBase_def)
  from m n b have "map_of (case identifiers (getBase g i) i of None \<Rightarrow> [] | Some rs \<Rightarrow> rs) k = Some (Some r0)"
    by simp
  from get_existing[OF this pn, of d] assms(2) b show ?thesis by simp
qed

lemma notifyStep_refl: "notifyStep s g g"
  by (simp add: notifyStep_def keepsEdges_refl)

lemma notifyStep_trans: "notifyStep s a b \<Longrightarrow> notifyStep s b c \<Longrightarrow> notifyStep s a c"
  unfolding notifyStep_def by (auto intro: keepsEdges_trans)

lemma notifyInverse_step:
  assumes "notifyInverseOfDematerialization d g iv k x s = Inr g'"
  shows "notifyStep s g g'"
proof (cases "has g iv k")
  case False
  with assms show ?thesis by (simp add: notifyInverseOfDematerialization_def notifyStep_refl)
next
  case True
  with assms obtain y where y: "get d g iv k = Inr y"
    and z: "(case y of (relationship, g1) \<Rightarrow>
        case edges g1 relationship of
          None \<Rightarrow> Inr g1
        | Some e \<Rightarrow>
           if isImplicitEdge e then Inl (AssertionError ''expected no implicit'')
           else if (case e of
                      ResourceEdge m i s t l r \<Rightarrow> l = None \<or> Some x = l
                    | _ \<Rightarrow> True)
             then Inr (removeDematerializedInverse d g1 relationship x s)
           else Inr g1) = Inr g'"
    by (auto simp: notifyInverseOfDematerialization_def dest!: bindE_Inr)
  obtain rel h where yh: "y = (rel, h)" by (cases y)
  from get_has[OF True y[unfolded yh]] have h: "h = g" .
  from z yh h have alt: "g' = g \<or> (\<exists>e. edges g rel = Some e \<and> g' = removeDematerializedInverse d g rel x s)"
    by (auto split: option.splits if_splits)
  then show ?thesis
  proof
    assume "g' = g" then show ?thesis by (simp add: notifyStep_refl)
  next
    assume "\<exists>e. edges g rel = Some e \<and> g' = removeDematerializedInverse d g rel x s"
    then obtain e where e: "edges g rel = Some e" and g': "g' = removeDematerializedInverse d g rel x s"
      by blast
    show ?thesis
      unfolding notifyStep_def g'
      using keepsEdges_removeDematerializedInverse[of g d rel x s]
        removeDematerializedInverse_notified[OF e, of d x s]
      by auto
  qed
qed

lemma notifyLoop_step:
  "forEachE (\<lambda>iv g'. notifyInverseOfDematerialization d g' iv k x s) xs g = Inr g' \<Longrightarrow>
   notifyStep s g g'"
proof (induction xs arbitrary: g)
  case Nil
  then show ?case by (simp add: notifyStep_refl)
next
  case (Cons a xs)
  from Cons.prems obtain h where h: "notifyInverseOfDematerialization d g a k x s = Inr h"
    and r: "forEachE (\<lambda>iv g'. notifyInverseOfDematerialization d g' iv k x s) xs h = Inr g'"
    by (auto split: sum.splits)
  from notifyStep_trans[OF notifyInverse_step[OF h] Cons.IH[OF r]] show ?case .
qed

lemma cleared_stale:
  assumes "\<not> isImplicitEdge e"
  shows "isStale (state (clearRelationship (map_state (\<lambda>s. s\<lparr> isStale := True \<rparr>) e))) \<and>
         isCleared (clearRelationship (map_state (\<lambda>s. s\<lparr> isStale := True \<rparr>) e))"
  using assms by (cases e) simp_all

lemma destroy_examples:
  "\<exists>g'. destroyRelationship exampleDeps exampleGraph 2 False = Inr g' \<and>
     notified g' = [(post1, ''author''), (user1, ''posts'')]"
  "\<exists>g'. destroyRelationship exampleDeps approvalGraph 0 False = Inr g' \<and>
     edges g' 0 = Some (ResourceEdge postApprover post3
        (loadedState\<lparr> hasReceivedData := False, isEmpty := True, isStale := True \<rparr>) 0 None None) \<and>
     notified g' = [(user1, ''approvals'')]"
  by (simp_all add: model_defs example_defs)

text \<open>
  Claim C9, as stated, fails in its last part: the notification on the edge's own pair is
  emitted for a synchronous field (\<open>posts\<close>) and not for an asynchronous one
  (\<open>approver\<close>).
\<close>

theorem destroyRelationship_notifies_sync_counterexample:
  "\<not> isAsync userPosts \<and>
   (\<exists>g'. destroyRelationship exampleDeps exampleGraph 2 False = Inr g' \<and>
      (user1, ''posts'') \<in> set (notified g')) \<and>
   isAsync postApprover \<and> \<not> inverseIsImplicit postApprover \<and> \<not> inverseIsAsync postApprover \<and>
   (\<exists>g'. destroyRelationship exampleDeps approvalGraph 0 False = Inr g' \<and>
      (post3, ''approver'') \<notin> set (notified g'))"
proof -
  from destroy_examples obtain g1 g2 where
    a: "destroyRelationship exampleDeps exampleGraph 2 False = Inr g1"
       "notified g1 = [(post1, ''author''), (user1, ''posts'')]"
    and b: "destroyRelationship exampleDeps approvalGraph 0 False = Inr g2"
       "notified g2 = [(user1, ''approvals'')]"
    by blast
  have c: "\<not> isAsync userPosts" "isAsync postApprover" "\<not> inverseIsImplicit postApprover"
    "\<not> inverseIsAsync postApprover" "user1 \<noteq> post3"
    by (simp_all add: userPosts_def postApprover_def user1_def post3_def)
  from a b c show ?thesis by auto
qed

text \<open>
  Claim C9, amended. \<open>destroyRelationship\<close> on a non-implicit edge whose inverse is neither
  implicit nor asynchronous leaves the edge stale and cleared; after the notifications of
  the inverse edges it emits one notification on the edge's own (identifier, field) when
  the field is synchronous and the caller did not silence notifications, and none
  otherwise. A silenced call emits nothing at all.
\<close>

theorem destroyRelationship_hard_delete:
  assumes "edges g rel = Some e" and "\<not> isImplicitEdge e"
    and "\<not> inverseIsImplicit (edge_definition e)" and "\<not> inverseIsAsync (edge_definition e)"
    and "destroyRelationship d g rel s = Inr g'"
  shows "\<exists>e' ns. edges g' rel = Some e' \<and> isStale (state e') \<and> isCleared e' \<and>
           notified g' = notified g @ ns @
             (if \<not> isAsync (edge_definition e) \<and> \<not> s
              then [(edge_identifier e, key (edge_definition e))] else []) \<and>
           (s \<longrightarrow> ns = [])"
proof -
  let ?m = "edge_definition e"
  let ?cb = "\<lambda>iv g'. notifyInverseOfDematerialization d g' iv (inverseKey ?m) (edge_identifier e) s"
  let ?clear = "\<lambda>e'. clearRelationship (map_state (\<lambda>s. s\<lparr> isStale := True \<rparr>) e')"
  from assms obtain g1 where loop: "forEachE ?cb (relatedIdentifiers e) g = Inr g1"
    and g': "g' = (if \<not> isAsync ?m \<and> \<not> s
                   then notifyChange (updEdge rel ?clear g1) (edge_identifier e) (key ?m)
                   else updEdge rel ?clear g1)"
    by (auto simp: destroyRelationship_def forAllRelatedIdentifiers_def Let_def
             dest!: bindE_Inr split: if_splits)
  from notifyLoop_step[OF loop] obtain ns where k: "keepsEdges g g1"
    and n: "notified g1 = notified g @ ns" and sn: "s \<longrightarrow> ns = []"
    by (auto simp: notifyStep_def)
  from k assms(1) obtain e1 where e1: "edges g1 rel = Some e1" and se: "sameEdge e e1"
    by (auto simp: keepsEdges_def)
  from se assms(2) have ni: "\<not> isImplicitEdge e1" by (simp add: sameEdge_def)
  have ed: "edges g' rel = Some (?clear e1)"
    using e1 by (simp add: g' updEdge_def notifyChange_def)
  have nt: "notified g' = notified g @ ns @
             (if \<not> isAsync ?m \<and> \<not> s then [(edge_identifier e, key ?m)] else [])"
    using e1 n by (simp add: g' updEdge_def notifyChange_def)
  from ed nt sn cleared_stale[OF ni] show ?thesis by blast
qed

theorem destroyRelationship_hard_delete_witness:
  "edges exampleGraph 2 = Some (CollectionEdge userPosts user1 loadedState 0 [post1] [post1] [post1] [post1]) \<and>
   \<not> inverseIsImplicit userPosts \<and> \<not> inverseIsAsync userPosts \<and> \<not> isAsync userPosts \<and>
   (\<exists>g' e' ns. destroyRelationship exampleDeps exampleGraph 2 False = Inr g' \<and>
      edges g' 2 = Some e' \<and> isStale (state e') \<and> isCleared e' \<and>
      notified g' = notified exampleGraph @ ns @ [(user1, ''posts'')])"
proof -
  let ?e = "CollectionEdge userPosts user1 loadedState 0 [post1] [post1] [post1] [post1]"
  have e: "edges exampleGraph 2 = Some ?e" by (simp add: exampleGraph_def)
  have i: "\<not> isImplicitEdge ?e" by simp
  have m: "\<not> inverseIsImplicit (edge_definition ?e)" "\<not> inverseIsAsync (edge_definition ?e)"
    by (simp_all add: userPosts_def)
  have a: "\<not> isAsync userPosts" "key userPosts = ''posts''" by (simp_all add: userPosts_def)
  from destroy_examples(1) obtain g' where
    r: "destroyRelationship exampleDeps exampleGraph 2 False = Inr g'" by blast
  from destroyRelationship_hard_delete[OF e i m r] a e m r show ?thesis by auto
qed







lemma edgeStep_weaken: "edgeStep x True a b \<Longrightarrow> edgeStep x keep a b"
  by (simp add: edgeStep_def)




lemma edgeStep_clearRelationship: "edgeStep x False e (clearRelationship e)"
  by (cases e) (auto simp: edgeStep_def sameEdge_def)




























































end
